theory Spec2Isabelle
  imports Main "HOL-Library.AList" "HOL-Library.Sublist"
begin

section \<open>Python values and exceptions\<close>

text \<open>
  The exceptions that the modelled statements can raise. \<open>ExternalError\<close> stands for
  whatever an external collaborator (hydra, Lightning, torch, numpy) raises; its
  argument names the call.
\<close>

datatype error =
    TypeError
  | KeyError
  | RuntimeError
  | FileNotFoundError
  | IsADirectoryError
  | AttributeError
  | MissingMandatoryValue
  | ExternalError string

text \<open>
  An entry of the exclusion list: the data model calls it an atomic-number identifier,
  and the configuration may also leave an entry empty. So an entry is a Python \<open>int\<close>
  or \<open>None\<close>.
\<close>

datatype pyval = PyNone | PyInt int

text \<open>Python truthiness (\<open>if excluded_atom:\<close>): \<open>None\<close> and \<open>0\<close> are falsy.\<close>

fun truthy :: "pyval \<Rightarrow> bool" where
  "truthy PyNone = False"
| "truthy (PyInt n) = (n \<noteq> 0)"

section \<open>The object store\<close>

text \<open>
  \<open>forward\<close> mutates a tensor that the caller's dictionary refers to, so objects live
  in a store and are named by references. A dictionary object maps keys to references
  of tensor objects; a tensor object is its sequence of elements (the atomic-numbers
  tensor is an integer tensor; the elementwise operations used do not depend on the
  shape).
\<close>

type_synonym ref = nat

record heap =
  dicts :: "ref \<Rightarrow> (string \<rightharpoonup> ref)"
  tensors :: "ref \<Rightarrow> int list"

text \<open>\<open>inputs[key]\<close>: a missing key raises \<open>KeyError\<close>.\<close>

definition dict_getitem :: "heap \<Rightarrow> ref \<Rightarrow> string \<Rightarrow> error + ref" where
  "dict_getitem h d k = (case dicts h d k of None \<Rightarrow> Inl KeyError | Some t \<Rightarrow> Inr t)"

text \<open>
  \<open>x in tensor\<close> is \<open>Tensor.__contains__\<close>: for a number it is
  \<open>(x == tensor).any().item()\<close>, for \<open>None\<close> it raises \<open>RuntimeError\<close>.
\<close>

fun tensor_contains :: "int list \<Rightarrow> pyval \<Rightarrow> error + bool" where
  "tensor_contains t PyNone = Inl RuntimeError"
| "tensor_contains t (PyInt n) = Inr (list_ex (\<lambda>y. y = n) t)"

text \<open>\<open>tensor == x\<close>: the elementwise mask.\<close>

fun tensor_eq :: "int list \<Rightarrow> pyval \<Rightarrow> bool list" where
  "tensor_eq t PyNone = map (\<lambda>y. False) t"
| "tensor_eq t (PyInt n) = map (\<lambda>y. y = n) t"

text \<open>\<open>tensor[mask] = v\<close>: the masked assignment, in place on the tensor object.\<close>

definition masked_assign :: "int list \<Rightarrow> bool list \<Rightarrow> int \<Rightarrow> int list" where
  "masked_assign t msk v = map (\<lambda>(y, m). if m then v else y) (zip t msk)"

definition tensor_setitem :: "heap \<Rightarrow> ref \<Rightarrow> bool list \<Rightarrow> int \<Rightarrow> heap" where
  "tensor_setitem h t msk v = h\<lparr>tensors := (tensors h)(t := masked_assign (tensors h t) msk v)\<rparr>"

section \<open>ExclusionTransformer\<close>

record ExclusionTransformer =
  excluded_atoms :: "pyval list option"

text \<open>\<open>__init__(self, excluded_atoms=None)\<close>; the default call passes \<open>None\<close>.\<close>

definition ExclusionTransformer_init :: "pyval list option \<Rightarrow> ExclusionTransformer" where
  "ExclusionTransformer_init excl = \<lparr>excluded_atoms = excl\<rparr>"

text \<open>
  The body of the \<open>for\<close> loop of \<open>forward\<close>, for one entry. \<open>Z\<close> is the key
  \<open>structure.Z\<close> of the atomic-numbers tensor, a constant of \<open>schnetpack.properties\<close>
  and a parameter here. \<open>inputs[structure.Z]\<close> is looked up anew at each use.
\<close>

definition forward_step :: "string \<Rightarrow> pyval \<Rightarrow> ref \<Rightarrow> heap \<Rightarrow> error + heap" where
  "forward_step Z excluded_atom inputs h =
     (if truthy excluded_atom then
        (case dict_getitem h inputs Z of
           Inl e \<Rightarrow> Inl e
         | Inr t \<Rightarrow>
            (case tensor_contains (tensors h t) excluded_atom of
               Inl e \<Rightarrow> Inl e
             | Inr True \<Rightarrow>
                (case dict_getitem h inputs Z of
                   Inl e \<Rightarrow> Inl e
                 | Inr t1 \<Rightarrow>
                    (case dict_getitem h inputs Z of
                       Inl e \<Rightarrow> Inl e
                     | Inr t2 \<Rightarrow>
                        Inr (tensor_setitem h t1 (tensor_eq (tensors h t2) excluded_atom) 0)))
             | Inr False \<Rightarrow> Inr h))
      else Inr h)"

fun forward_loop :: "string \<Rightarrow> pyval list \<Rightarrow> ref \<Rightarrow> heap \<Rightarrow> error + heap" where
  "forward_loop Z [] inputs h = Inr h"
| "forward_loop Z (excluded_atom # rest) inputs h =
     (case forward_step Z excluded_atom inputs h of
        Inl e \<Rightarrow> Inl e
      | Inr h' \<Rightarrow> forward_loop Z rest inputs h')"

text \<open>
  \<open>forward(self, inputs)\<close>: iterating over \<open>None\<close> raises \<open>TypeError\<close>; otherwise the
  loop runs and the reference of \<open>inputs\<close> itself is returned.
\<close>

definition forward :: "string \<Rightarrow> ExclusionTransformer \<Rightarrow> ref \<Rightarrow> heap \<Rightarrow> error + (ref \<times> heap)" where
  "forward Z self inputs h =
     (case excluded_atoms self of
        None \<Rightarrow> Inl TypeError
      | Some xs \<Rightarrow>
         (case forward_loop Z xs inputs h of
            Inl e \<Rightarrow> Inl e
          | Inr h' \<Rightarrow> Inr (inputs, h')))"

text \<open>What the exclusion does to one element: an element that equals a truthy entry becomes 0.\<close>

definition excluded :: "pyval list \<Rightarrow> int \<Rightarrow> bool" where
  "excluded xs y = list_ex (\<lambda>e. truthy e \<and> e = PyInt y) xs"

definition exclude :: "pyval list \<Rightarrow> int list \<Rightarrow> int list" where
  "exclude xs t = map (\<lambda>y. if excluded xs y then 0 else y) t"

text \<open>
  A small batch for the concrete instances: the dictionary object 0 holds the
  atomic-numbers tensor (object 1) and a second tensor (object 2).
\<close>

definition example_heap :: heap where
  "example_heap =
     \<lparr>dicts = (\<lambda>_. Map.empty)(0 := [''_atomic_numbers'' \<mapsto> 1, ''_positions'' \<mapsto> 2]),
      tensors = (\<lambda>_. [])(1 := [7, 6, 7, 1], 2 := [10, 20, 30, 40])\<rparr>"

section \<open>The configuration record\<close>

text \<open>
  The merged configuration, with the fields \<open>train\<close> reads. A mandatory value that was
  left as the placeholder \<open>???\<close> is \<open>Missing\<close>, and reading it raises. An optional
  section or key that is absent is \<open>None\<close>. A fragment is represented by its
  \<open>_target_\<close>.
\<close>

datatype 'a field = Missing | Value 'a

record data_section =
  data_target :: string
  train_sampler_cls :: "string option"

record task_section =
  task_target :: string
  optimizer_cls :: string
  scheduler_cls :: "string option"

record config =
  run_data_dir :: "string field"
  run_ckpt_path :: "string option"
  run_id :: string
  data :: "data_section option"
  model :: "string option"
  task :: task_section
  callbacks :: "(string \<times> string option) list option"
  logger :: "(string \<times> string option) list option"
  trainer :: string
  print_config :: bool
  matmul_precision :: "string option"
  seed :: "int option"
  globals_model_path :: string

section \<open>Files, events and the world\<close>

text \<open>
  Objects that only the external libraries look into (models, tasks) are opaque;
  \<open>TaskWith m\<close> is the task built around the model \<open>m\<close>, \<open>ModelOf t\<close> the
  model that the task \<open>t\<close> wraps.
\<close>

datatype pyobj = Opaque string | ModelOf pyobj | TaskWith pyobj

text \<open>
  What a file holds: a saved configuration (unresolved form), a partition file with its
  named index arrays, a pickled object, a checkpoint of a task, or anything else.
\<close>

datatype content =
    Yaml config
  | Npz "(string \<times> nat list) list"
  | Pickle pyobj
  | Checkpoint pyobj
  | Blob string

datatype node = File content | Dir

type_synonym filesystem = "(string \<times> node) list"

text \<open>The mutable fields of the data module that \<open>train\<close> assigns.\<close>

record datamodule =
  split_file :: string
  num_train :: nat
  num_test :: nat
  num_val :: nat

text \<open>Which configuration fragment \<open>hydra.utils.instantiate\<close> is given.\<close>

datatype fragment = DataFragment | ModelFragment | TaskFragment
  | CallbackFragment string | LoggerFragment string | TrainerFragment

text \<open>
  The observable steps of a run, in order: output, calls into the external libraries,
  and assignments to the shared data module. Log messages are kept by their fixed text
  (host names, absolute paths and timings are left out).
\<close>

datatype event =
    Print string
  | LogInfo string
  | LogError string
  | PrintConfig
  | SetMatmulPrecision string
  | SeedEverything "int option"
  | Str2Class string
  | HydraInstantiate fragment
  | TorchLoad string
  | LogHyperparameters
  | Assign_split_file string
  | NpLoad string
  | Assign_num_train nat
  | Assign_num_test nat
  | Assign_num_val nat
  | TrainerFit
  | TrainerTest pyobj datamodule
  | LoadFromCheckpoint string
  | TorchSave string
  | SaveModel string

record world =
  fs :: filesystem
  trace :: "event list"

text \<open>
  The external collaborators. \<open>is_missing\<close> is \<open>OmegaConf.is_missing\<close>, the library's
  test of a key of the configuration, which \<open>train\<close> calls with the key
  \<open>"run.data_dir"\<close>; what it reports is not fixed here. \<open>ext_raises\<close> says, from the
  history of the run, whether a call into hydra, Lightning or torch raises;
  \<open>instantiated_datamodule\<close> is the data
  module that hydra builds; \<open>best_model_path\<close> is
  \<open>trainer.checkpoint_callback.best_model_path\<close>, \<open>None\<close> when the trainer has no
  checkpoint callback. External calls are taken not to touch the files that \<open>train\<close>
  itself reads or writes; permissions and missing parent directories are not modelled.
\<close>

record env =
  is_missing :: "config \<Rightarrow> string \<Rightarrow> bool"
  ext_raises :: "event list \<Rightarrow> event \<Rightarrow> error option"
  instantiated_datamodule :: datamodule
  best_model_path :: "string option"

section \<open>Programs: state and exceptions\<close>

datatype 'a outcome = Return 'a | Raise error

type_synonym 'a prog = "world \<Rightarrow> 'a outcome \<times> world"

definition return_prog :: "'a \<Rightarrow> 'a prog" where
  "return_prog x w = (Return x, w)"

definition raise_prog :: "error \<Rightarrow> 'a prog" where
  "raise_prog e w = (Raise e, w)"

definition bind_prog :: "'a prog \<Rightarrow> ('a \<Rightarrow> 'b prog) \<Rightarrow> 'b prog" where
  "bind_prog m f w =
     (case m w of
        (Return x, w') \<Rightarrow> f x w'
      | (Raise e, w') \<Rightarrow> (Raise e, w'))"

text \<open>A step that cannot raise (printing, logging, an assignment).\<close>

definition emit :: "event \<Rightarrow> unit prog" where
  "emit ev w = (Return (), w\<lparr>trace := trace w @ [ev]\<rparr>)"

text \<open>A call into an external library: it is recorded, and raises when the environment says so.\<close>

definition ext_call :: "env \<Rightarrow> event \<Rightarrow> unit prog" where
  "ext_call e ev w =
     (case ext_raises e (trace w) ev of
        None \<Rightarrow> (Return (), w\<lparr>trace := trace w @ [ev]\<rparr>)
      | Some err \<Rightarrow> (Raise err, w\<lparr>trace := trace w @ [ev]\<rparr>))"

subsection \<open>The file system\<close>

text \<open>
  The paths that exist, each a file with its content or a directory. \<open>os.path.exists\<close>
  holds of both.
\<close>

definition path_exists :: "filesystem \<Rightarrow> string \<Rightarrow> bool" where
  "path_exists files p = (map_of files p \<noteq> None)"

definition os_path_exists :: "string \<Rightarrow> bool prog" where
  "os_path_exists p w = (Return (path_exists (fs w) p), w)"

definition read_file :: "string \<Rightarrow> content prog" where
  "read_file p w =
     (case map_of (fs w) p of
        None \<Rightarrow> (Raise FileNotFoundError, w)
      | Some Dir \<Rightarrow> (Raise IsADirectoryError, w)
      | Some (File c) \<Rightarrow> (Return c, w))"

text \<open>\<open>open(p, "w")\<close> and the write: creates or replaces the file; a directory cannot be opened.\<close>

definition write_file :: "string \<Rightarrow> content \<Rightarrow> unit prog" where
  "write_file p c w =
     (case map_of (fs w) p of
        Some Dir \<Rightarrow> (Raise IsADirectoryError, w)
      | _ \<Rightarrow> (Return (), w\<lparr>fs := AList.update p (File c) (fs w)\<rparr>))"

text \<open>\<open>os.makedirs(p)\<close>, called only when \<open>p\<close> does not exist.\<close>

definition os_makedirs :: "string \<Rightarrow> unit prog" where
  "os_makedirs p w = (Return (), w\<lparr>fs := AList.update p Dir (fs w)\<rparr>)"

text \<open>\<open>OmegaConf.load(p)\<close>: the file must hold a configuration.\<close>

definition OmegaConf_load :: "string \<Rightarrow> config prog" where
  "OmegaConf_load p =
     bind_prog (read_file p) (\<lambda>c.
       case c of Yaml conf \<Rightarrow> return_prog conf
       | _ \<Rightarrow> raise_prog (ExternalError ''OmegaConf.load''))"

text \<open>\<open>with open(p, "w") as f: OmegaConf.save(conf, f, resolve=False)\<close>.\<close>

definition OmegaConf_save :: "config \<Rightarrow> string \<Rightarrow> unit prog" where
  "OmegaConf_save conf p = write_file p (Yaml conf)"

subsection \<open>Decimal rendering of a number in an f-string\<close>

text \<open>\<open>digit_char\<close> is applied to digits below 10 only.\<close>

definition digit_char :: "nat \<Rightarrow> char" where
  "digit_char d = ''0123456789'' ! d"

fun str_nat :: "nat \<Rightarrow> string" where
  "str_nat n = (if n < 10 then [digit_char n] else str_nat (n div 10) @ [digit_char (n mod 10)])"

declare str_nat.simps [simp del]

text \<open>\<open>f"config.old.{count}.yaml"\<close>\<close>

definition archive_name :: "nat \<Rightarrow> string" where
  "archive_name count = ''config.old.'' @ str_nat count @ ''.yaml''"

text \<open>Two numbers with the same rendering are equal, so no two counts name the same archive.\<close>

lemma digit_char_inj: "a < 10 \<Longrightarrow> b < 10 \<Longrightarrow> digit_char a = digit_char b \<Longrightarrow> a = b"
proof -
  assume a: "a < 10" and b: "b < 10" and eq: "digit_char a = digit_char b"
  have d: "distinct ''0123456789''" by simp
  from a b have "a < length ''0123456789''" and "b < length ''0123456789''" by simp_all
  with d eq show "a = b"
    unfolding digit_char_def by (simp only: nth_eq_iff_index_eq)
qed

lemma str_nat_nonempty: "str_nat n \<noteq> []"
  by (subst str_nat.simps) simp

lemma str_nat_inj: "str_nat n = str_nat m \<Longrightarrow> n = m"
proof (induction n arbitrary: m rule: str_nat.induct)
  case (1 n)
  show ?case
  proof (cases "n < 10")
    case small: True
    show ?thesis
    proof (cases "m < 10")
      case True
      with small "1.prems" have "digit_char n = digit_char m"
        by (simp add: str_nat.simps [of n] str_nat.simps [of m])
      with small True show ?thesis by (rule digit_char_inj)
    next
      case False
      with small "1.prems" show ?thesis
        by (simp add: str_nat.simps [of n] str_nat.simps [of m] str_nat_nonempty [symmetric])
    qed
  next
    case big: False
    show ?thesis
    proof (cases "m < 10")
      case True
      with big "1.prems" show ?thesis
        by (simp add: str_nat.simps [of n] str_nat.simps [of m] str_nat_nonempty)
    next
      case False
      with big "1.prems" have hi: "str_nat (n div 10) = str_nat (m div 10)"
        and lo: "digit_char (n mod 10) = digit_char (m mod 10)"
        by (simp_all add: str_nat.simps [of n] str_nat.simps [of m])
      from big hi have "n div 10 = m div 10" by (rule "1.IH")
      moreover from lo have "n mod 10 = m mod 10"
        by (rule digit_char_inj [rotated 2]) simp_all
      ultimately show ?thesis by (metis div_mult_mod_eq)
    qed
  qed
qed

lemma archive_name_inj: "archive_name n = archive_name m \<Longrightarrow> n = m"
  by (simp add: archive_name_def str_nat_inj)

lemma path_exists_iff: "path_exists files p \<longleftrightarrow> p \<in> fst ` set files"
  by (simp add: path_exists_def dom_map_of_conv_image_fst [symmetric] domIff)

lemma finite_archive_counts: "finite {n. path_exists files (archive_name n)}"
proof -
  have "inj archive_name" by (rule injI) (rule archive_name_inj)
  then have "finite (archive_name -` fst ` set files)"
    by (intro finite_vimageI) simp_all
  moreover have "{n. path_exists files (archive_name n)} \<subseteq> archive_name -` fst ` set files"
    by (auto simp: path_exists_iff)
  ultimately show ?thesis by (rule rev_finite_subset)
qed

text \<open>
  \<open>count = 1; while os.path.exists(f"config.old.{count}.yaml"): count += 1\<close>, from the
  current value of \<open>count\<close>. The file system is finite, so the loop ends.
\<close>

function free_archive_count :: "filesystem \<Rightarrow> nat \<Rightarrow> nat" where
  "free_archive_count files count =
     (if path_exists files (archive_name count) then free_archive_count files (count + 1)
      else count)"
  by pat_completeness auto
termination
proof (relation "measure (\<lambda>(files, count). card {n. count \<le> n \<and> path_exists files (archive_name n)})")
  show "wf (measure (\<lambda>(files, count). card {n. count \<le> n \<and> path_exists files (archive_name n)}))"
    by simp
next
  fix files :: filesystem and count :: nat
  assume ex: "path_exists files (archive_name count)"
  have fin: "finite {n. count \<le> n \<and> path_exists files (archive_name n)}"
    using finite_archive_counts [of files] by (rule rev_finite_subset) auto
  have "count \<in> {n. count \<le> n \<and> path_exists files (archive_name n)}"
    using ex by simp
  moreover have "count \<notin> {n. count + 1 \<le> n \<and> path_exists files (archive_name n)}"
    by simp
  moreover have "{n. count + 1 \<le> n \<and> path_exists files (archive_name n)}
      \<subseteq> {n. count \<le> n \<and> path_exists files (archive_name n)}"
    by auto
  ultimately have "{n. count + 1 \<le> n \<and> path_exists files (archive_name n)}
      \<subset> {n. count \<le> n \<and> path_exists files (archive_name n)}"
    by blast
  with fin have "card {n. count + 1 \<le> n \<and> path_exists files (archive_name n)}
      < card {n. count \<le> n \<and> path_exists files (archive_name n)}"
    by (rule psubset_card_mono)
  then show "((files, count + 1), (files, count))
      \<in> measure (\<lambda>(files, count). card {n. count \<le> n \<and> path_exists files (archive_name n)})"
    by simp
qed

declare free_archive_count.simps [simp del]

section \<open>The training entry point\<close>

subsection \<open>Resume or first run (lines 64 to 89)\<close>

definition resume_or_save :: "config \<Rightarrow> config prog" where
  "resume_or_save conf =
     bind_prog (os_path_exists ''config.yaml'') (\<lambda>found.
       if found then
         bind_prog (emit (LogInfo ''Config already exists in given directory. Attempting to continue training.'')) (\<lambda>_.
         bind_prog (OmegaConf_load ''config.yaml'') (\<lambda>old_config.
         bind_prog (\<lambda>w. (Return (free_archive_count (fs w) 1), w)) (\<lambda>count.
         bind_prog (OmegaConf_save old_config (archive_name count)) (\<lambda>_.
         bind_prog
           (if run_ckpt_path conf = None then
              bind_prog (os_path_exists ''checkpoints/last.ckpt'') (\<lambda>last.
                if last then return_prog (conf\<lparr>run_ckpt_path := Some ''checkpoints/last.ckpt''\<rparr>)
                else return_prog conf)
            else return_prog conf) (\<lambda>conf.
         bind_prog
           (if run_ckpt_path conf \<noteq> None then emit (LogInfo ''Resuming from checkpoint'')
            else return_prog ()) (\<lambda>_.
         return_prog conf))))))
       else
         bind_prog (OmegaConf_save conf ''config.yaml'') (\<lambda>_. return_prog conf))"

subsection \<open>Settings and data directory (lines 91 to 108)\<close>

text \<open>\<open>config.run.data_dir\<close>: reading the placeholder raises.\<close>

definition config_run_data_dir :: "config \<Rightarrow> string prog" where
  "config_run_data_dir conf =
     (case run_data_dir conf of
        Missing \<Rightarrow> raise_prog MissingMandatoryValue
      | Value dir \<Rightarrow> return_prog dir)"

definition configure :: "env \<Rightarrow> config \<Rightarrow> unit prog" where
  "configure e conf =
     bind_prog (if print_config conf then ext_call e PrintConfig else return_prog ()) (\<lambda>_.
     bind_prog
       (case matmul_precision conf of
          None \<Rightarrow> return_prog ()
        | Some p \<Rightarrow>
            bind_prog (emit (LogInfo ''Setting float32 matmul precision'')) (\<lambda>_.
            ext_call e (SetMatmulPrecision p))) (\<lambda>_.
     bind_prog
       (case seed conf of
          Some s \<Rightarrow>
            bind_prog (emit (LogInfo ''Seed with'')) (\<lambda>_. ext_call e (SeedEverything (Some s)))
        | None \<Rightarrow>
            bind_prog (emit (LogInfo ''Seed randomly...'')) (\<lambda>_. ext_call e (SeedEverything None))) (\<lambda>_.
     bind_prog (config_run_data_dir conf) (\<lambda>dir.
     bind_prog (os_path_exists dir) (\<lambda>found.
       if \<not> found then bind_prog (config_run_data_dir conf) os_makedirs
       else return_prog ())))))"

subsection \<open>Components (lines 110 to 179)\<close>

text \<open>\<open>config.data\<close> and \<open>config.model\<close>: a section that is absent cannot be read.\<close>

definition config_data :: "config \<Rightarrow> data_section prog" where
  "config_data conf =
     (case data conf of
        None \<Rightarrow> raise_prog AttributeError
      | Some data_conf \<Rightarrow> return_prog data_conf)"

definition config_model :: "config \<Rightarrow> string prog" where
  "config_model conf =
     (case model conf of
        None \<Rightarrow> raise_prog AttributeError
      | Some model_conf \<Rightarrow> return_prog model_conf)"

text \<open>\<open>str2class(name) if name else None\<close>: an absent or empty name is falsy.\<close>

definition optional_class :: "env \<Rightarrow> string option \<Rightarrow> unit prog" where
  "optional_class e name =
     (case name of
        None \<Rightarrow> return_prog ()
      | Some n \<Rightarrow> if n \<noteq> [] then ext_call e (Str2Class n) else return_prog ())"

definition pretrained_model_file :: string where
  "pretrained_model_file = ''/home/gulsum/Documents/Surrogates/schnetpack/src/runs/Train100/best_model''"

text \<open>\<open>torch.load(p)\<close>: the file must hold a pickled object.\<close>

definition torch_load :: "string \<Rightarrow> pyobj prog" where
  "torch_load p =
     bind_prog (emit (TorchLoad p)) (\<lambda>_.
     bind_prog (read_file p) (\<lambda>c.
       case c of Pickle obj \<Rightarrow> return_prog obj
       | _ \<Rightarrow> raise_prog (ExternalError ''torch.load'')))"

text \<open>The loops over \<open>config["callbacks"].items()\<close> and \<open>config["logger"].items()\<close>.\<close>

fun instantiate_each :: "env \<Rightarrow> string \<Rightarrow> (string \<Rightarrow> fragment) \<Rightarrow> (string \<times> string option) list \<Rightarrow> unit prog" where
  "instantiate_each e msg frag [] = return_prog ()"
| "instantiate_each e msg frag ((name, target) # rest) =
     bind_prog
       (case target of
          None \<Rightarrow> return_prog ()
        | Some t \<Rightarrow>
            bind_prog (emit (LogInfo msg)) (\<lambda>_. ext_call e (HydraInstantiate (frag name)))) (\<lambda>_.
     instantiate_each e msg frag rest)"

definition instantiate_components :: "env \<Rightarrow> config \<Rightarrow> (datamodule \<times> pyobj) prog" where
  "instantiate_components e conf =
     bind_prog (config_data conf) (\<lambda>data_conf.
     bind_prog (emit (LogInfo ''Instantiating datamodule'')) (\<lambda>_.
     bind_prog (optional_class e (train_sampler_cls data_conf)) (\<lambda>_.
     bind_prog (ext_call e (HydraInstantiate DataFragment)) (\<lambda>_.
     bind_prog (config_model conf) (\<lambda>model_conf.
     bind_prog (emit (LogInfo ''Instantiating model'')) (\<lambda>_.
     bind_prog (torch_load pretrained_model_file) (\<lambda>loaded.
     bind_prog (emit (LogInfo ''Instantiating task'')) (\<lambda>_.
     bind_prog (optional_class e (scheduler_cls (task conf))) (\<lambda>_.
     bind_prog (ext_call e (Str2Class (optimizer_cls (task conf)))) (\<lambda>_.
     bind_prog (ext_call e (HydraInstantiate TaskFragment)) (\<lambda>_.
     bind_prog
       (case callbacks conf of
          None \<Rightarrow> return_prog ()
        | Some cbs \<Rightarrow> instantiate_each e ''Instantiating callback'' CallbackFragment cbs) (\<lambda>_.
     bind_prog
       (case logger conf of
          None \<Rightarrow> return_prog ()
        | Some lgs \<Rightarrow> instantiate_each e ''Instantiating logger'' LoggerFragment lgs) (\<lambda>_.
     bind_prog (emit (LogInfo ''Instantiating trainer'')) (\<lambda>_.
     bind_prog (ext_call e (HydraInstantiate TrainerFragment)) (\<lambda>_.
     bind_prog (emit (LogInfo ''Logging hyperparameters.'')) (\<lambda>_.
     bind_prog (ext_call e LogHyperparameters) (\<lambda>_.
     return_prog (instantiated_datamodule e, TaskWith loaded))))))))))))))))))"

subsection \<open>The evaluation passes (lines 181 to 288)\<close>

text \<open>\<open>np.load(p)\<close>: the file must be a partition file.\<close>

definition np_load :: "string \<Rightarrow> (string \<times> nat list) list prog" where
  "np_load p =
     bind_prog (emit (NpLoad p)) (\<lambda>_.
     bind_prog (read_file p) (\<lambda>c.
       case c of Npz arrays \<Rightarrow> return_prog arrays
       | _ \<Rightarrow> raise_prog (ExternalError ''np.load'')))"

text \<open>\<open>s_file[name]\<close>: a missing array raises \<open>KeyError\<close>.\<close>

definition npz_getitem :: "(string \<times> nat list) list \<Rightarrow> string \<Rightarrow> nat list prog" where
  "npz_getitem s_file name =
     (case map_of s_file name of
        None \<Rightarrow> raise_prog KeyError
      | Some idx \<Rightarrow> return_prog idx)"

text \<open>The assignments to the fields of the shared data module.\<close>

definition assign_split_file :: "string \<Rightarrow> datamodule \<Rightarrow> datamodule prog" where
  "assign_split_file p dm =
     bind_prog (emit (Assign_split_file p)) (\<lambda>_. return_prog (dm\<lparr>split_file := p\<rparr>))"

definition assign_num_train :: "nat \<Rightarrow> datamodule \<Rightarrow> datamodule prog" where
  "assign_num_train n dm =
     bind_prog (emit (Assign_num_train n)) (\<lambda>_. return_prog (dm\<lparr>num_train := n\<rparr>))"

definition assign_num_test :: "nat \<Rightarrow> datamodule \<Rightarrow> datamodule prog" where
  "assign_num_test n dm =
     bind_prog (emit (Assign_num_test n)) (\<lambda>_. return_prog (dm\<lparr>num_test := n\<rparr>))"

definition assign_num_val :: "nat \<Rightarrow> datamodule \<Rightarrow> datamodule prog" where
  "assign_num_val n dm =
     bind_prog (emit (Assign_num_val n)) (\<lambda>_. return_prog (dm\<lparr>num_val := n\<rparr>))"

fun log_all :: "string list \<Rightarrow> unit prog" where
  "log_all [] = return_prog ()"
| "log_all (msg # rest) = bind_prog (emit (LogInfo msg)) (\<lambda>_. log_all rest)"

text \<open>
  The block that \<open>train\<close> repeats for each partition: assign the split file, load it,
  assign the three counts, then log, test and log again. The first block logs one more
  message before the test, so the messages before the test are a list.
\<close>

definition evaluation_pass ::
  "env \<Rightarrow> pyobj \<Rightarrow> string \<Rightarrow> string list \<Rightarrow> string \<Rightarrow> datamodule \<Rightarrow> datamodule prog" where
  "evaluation_pass e the_task p before after dm =
     bind_prog (assign_split_file p dm) (\<lambda>dm.
     bind_prog (np_load (split_file dm)) (\<lambda>s_file.
     bind_prog (npz_getitem s_file ''train_idx'') (\<lambda>train_idx.
     bind_prog (assign_num_train (length train_idx) dm) (\<lambda>dm.
     bind_prog (npz_getitem s_file ''test_idx'') (\<lambda>test_idx.
     bind_prog (assign_num_test (length test_idx) dm) (\<lambda>dm.
     bind_prog (npz_getitem s_file ''val_idx'') (\<lambda>val_idx.
     bind_prog (assign_num_val (length val_idx) dm) (\<lambda>dm.
     bind_prog (log_all before) (\<lambda>_.
     bind_prog (ext_call e (TrainerTest the_task dm)) (\<lambda>_.
     bind_prog (emit (LogInfo after)) (\<lambda>_.
     return_prog dm)))))))))))"

definition split_files_dir :: string where
  "split_files_dir = ''/home/gulsum/Documents/Surrogates/schnetpack/src/schnetpack/splits/split_files/''"

text \<open>
  The split file of a pass: the share of nitrogen in training (the f-string's
  \<open>train_perc\<close>, written out in the later literals), and the shares of nitrogen and of
  the remaining species in the test set.
\<close>

definition split_path :: "nat \<Rightarrow> nat \<Rightarrow> nat \<Rightarrow> string" where
  "split_path train_perc test_n test_rest =
     split_files_dir @ ''split_train_'' @ str_nat train_perc
       @ ''_perc_of_nitrogen_100_perc_of_remaining_test_'' @ str_nat test_n
       @ ''_perc_of_nitrogen_'' @ str_nat test_rest @ ''_perc_of_remaining.npz''"

definition evaluation_sweep :: "env \<Rightarrow> pyobj \<Rightarrow> datamodule \<Rightarrow> datamodule prog" where
  "evaluation_sweep e the_task dm =
     bind_prog (evaluation_pass e the_task (split_path 100 100 100)
        [''Starting training for 100% nitrogen.'', ''Starting testing for 100% nitrogen.'']
        ''Testing for 100% nitrogen took'' dm) (\<lambda>dm.
     bind_prog (evaluation_pass e the_task (split_path 100 80 100)
        [''Starting testing for 80% nitrogen.''] ''Testing for 80% nitrogen took'' dm) (\<lambda>dm.
     bind_prog (evaluation_pass e the_task (split_path 100 60 100)
        [''Starting testing for 60% nitrogen.''] ''Testing for 60% nitrogen took'' dm) (\<lambda>dm.
     bind_prog (evaluation_pass e the_task (split_path 100 40 100)
        [''Starting testing for 40% nitrogen.''] ''Testing for 40% nitrogen took'' dm) (\<lambda>dm.
     bind_prog (evaluation_pass e the_task (split_path 100 20 100)
        [''Starting testing for 20% nitrogen.''] ''Testing for 20% nitrogen took'' dm) (\<lambda>dm.
     bind_prog (evaluation_pass e the_task (split_path 100 0 100)
        [''Starting testing for 0% nitrogen.''] ''Testing for 0% nitrogen took'' dm) (\<lambda>dm.
     evaluation_pass e the_task (split_path 100 100 0)
        [''Starting testing for only nitrogen, Train 100% N.''] ''Testing for only nitrogen took'' dm))))))"

text \<open>The split files in the order of the passes.\<close>

definition split_files :: "string list" where
  "split_files =
     [split_path 100 100 100, split_path 100 80 100, split_path 100 60 100,
      split_path 100 40 100, split_path 100 20 100, split_path 100 0 100,
      split_path 100 100 0]"

text \<open>The same list as the literals of the source; the first one is the f-string with \<open>train_perc = 100\<close>.\<close>

lemma split_files_literal:
  "split_files =
    [''/home/gulsum/Documents/Surrogates/schnetpack/src/schnetpack/splits/split_files/split_train_100_perc_of_nitrogen_100_perc_of_remaining_test_100_perc_of_nitrogen_100_perc_of_remaining.npz'',
     ''/home/gulsum/Documents/Surrogates/schnetpack/src/schnetpack/splits/split_files/split_train_100_perc_of_nitrogen_100_perc_of_remaining_test_80_perc_of_nitrogen_100_perc_of_remaining.npz'',
     ''/home/gulsum/Documents/Surrogates/schnetpack/src/schnetpack/splits/split_files/split_train_100_perc_of_nitrogen_100_perc_of_remaining_test_60_perc_of_nitrogen_100_perc_of_remaining.npz'',
     ''/home/gulsum/Documents/Surrogates/schnetpack/src/schnetpack/splits/split_files/split_train_100_perc_of_nitrogen_100_perc_of_remaining_test_40_perc_of_nitrogen_100_perc_of_remaining.npz'',
     ''/home/gulsum/Documents/Surrogates/schnetpack/src/schnetpack/splits/split_files/split_train_100_perc_of_nitrogen_100_perc_of_remaining_test_20_perc_of_nitrogen_100_perc_of_remaining.npz'',
     ''/home/gulsum/Documents/Surrogates/schnetpack/src/schnetpack/splits/split_files/split_train_100_perc_of_nitrogen_100_perc_of_remaining_test_0_perc_of_nitrogen_100_perc_of_remaining.npz'',
     ''/home/gulsum/Documents/Surrogates/schnetpack/src/schnetpack/splits/split_files/split_train_100_perc_of_nitrogen_100_perc_of_remaining_test_100_perc_of_nitrogen_0_perc_of_remaining.npz'']"
  by (simp add: split_files_def split_path_def split_files_dir_def str_nat.simps digit_char_def)

subsection \<open>Storing the best model (lines 322 to 331)\<close>

text \<open>\<open>type(task).load_from_checkpoint(p)\<close>: the file must be a checkpoint.\<close>

definition load_from_checkpoint :: "string \<Rightarrow> pyobj prog" where
  "load_from_checkpoint p =
     bind_prog (emit (LoadFromCheckpoint p)) (\<lambda>_.
     bind_prog (read_file p) (\<lambda>c.
       case c of Checkpoint t \<Rightarrow> return_prog t
       | _ \<Rightarrow> raise_prog (ExternalError ''load_from_checkpoint'')))"

definition torch_save :: "pyobj \<Rightarrow> string \<Rightarrow> unit prog" where
  "torch_save obj p = bind_prog (emit (TorchSave p)) (\<lambda>_. write_file p (Pickle obj))"

text \<open>\<open>best_task.save_model(p, do_postprocessing=True)\<close> writes the model of the task.\<close>

definition save_model :: "pyobj \<Rightarrow> string \<Rightarrow> unit prog" where
  "save_model t p = bind_prog (emit (SaveModel p)) (\<lambda>_. write_file p (Pickle (ModelOf t)))"

definition store_best_model :: "env \<Rightarrow> config \<Rightarrow> unit prog" where
  "store_best_model e conf =
     bind_prog
       (case best_model_path e of
          None \<Rightarrow> raise_prog AttributeError
        | Some p \<Rightarrow> return_prog p) (\<lambda>best_path.
     bind_prog (emit (LogInfo ''Best checkpoint path:'')) (\<lambda>_.
     bind_prog (emit (LogInfo ''Store best model'')) (\<lambda>_.
     bind_prog (load_from_checkpoint best_path) (\<lambda>best_task.
     bind_prog (torch_save best_task (globals_model_path conf @ ''.task'')) (\<lambda>_.
     bind_prog (save_model best_task (globals_model_path conf)) (\<lambda>_.
     emit (LogInfo ''Best model stored at'')))))))"

subsection \<open>train\<close>

text \<open>The two checks return early; everything after them is \<open>train_run\<close>.\<close>

definition train_run :: "env \<Rightarrow> config \<Rightarrow> unit prog" where
  "train_run e conf =
     bind_prog (resume_or_save conf) (\<lambda>conf.
     bind_prog (configure e conf) (\<lambda>_.
     bind_prog (instantiate_components e conf) (\<lambda>(dm, the_task).
     bind_prog (evaluation_sweep e the_task dm) (\<lambda>dm.
     store_best_model e conf))))"

definition train :: "env \<Rightarrow> config \<Rightarrow> unit prog" where
  "train e conf =
     bind_prog (emit (Print ''header'')) (\<lambda>_.
     bind_prog (emit (LogInfo ''Running on host GULSUM!: '')) (\<lambda>_.
       if is_missing e conf ''run.data_dir'' then
         emit (LogError ''Config incomplete! You need to specify the data directory data_dir.'')
       else if \<not> (model conf \<noteq> None \<and> data conf \<noteq> None) then
         emit (LogError ''Config incomplete HELLO! You have to specify at least data and model!'')
       else train_run e conf))"

section \<open>Observers of a run\<close>

text \<open>
  A property of the order of the steps of a run is stated by an observer: a state machine
  that reads the events of the trace one by one. The observer of the evaluation passes
  follows the shared data module through one pass after the other. From \<open>Idle\<close> the
  only assignment it accepts is that of the split file; then the three counts in the
  order train, test, validation; then the test call, which must be given the task of
  the run and a data module with exactly the values assigned in this pass. Loading a
  partition file is accepted only for the split file just assigned. Anything out of
  this order is a \<open>Violation\<close>, for good. Events that do not touch the data module
  are passed over. The observer also lists the split files of the test calls made.
\<close>

datatype phase =
    Idle
  | SplitAssigned string
  | TrainCounted string nat
  | TestCounted string nat nat
  | ValCounted string nat nat nat
  | Violation

fun order_step :: "pyobj \<Rightarrow> phase \<times> string list \<Rightarrow> event \<Rightarrow> phase \<times> string list" where
  "order_step t (ph, tested) (Assign_split_file p) =
     (case ph of Idle \<Rightarrow> (SplitAssigned p, tested) | _ \<Rightarrow> (Violation, tested))"
| "order_step t (ph, tested) (NpLoad q) =
     (case ph of
        SplitAssigned p \<Rightarrow> if q = p then (SplitAssigned p, tested) else (Violation, tested)
      | _ \<Rightarrow> (Violation, tested))"
| "order_step t (ph, tested) (Assign_num_train a) =
     (case ph of SplitAssigned p \<Rightarrow> (TrainCounted p a, tested) | _ \<Rightarrow> (Violation, tested))"
| "order_step t (ph, tested) (Assign_num_test b) =
     (case ph of TrainCounted p a \<Rightarrow> (TestCounted p a b, tested) | _ \<Rightarrow> (Violation, tested))"
| "order_step t (ph, tested) (Assign_num_val c) =
     (case ph of TestCounted p a b \<Rightarrow> (ValCounted p a b c, tested) | _ \<Rightarrow> (Violation, tested))"
| "order_step t (ph, tested) (TrainerTest t' dm) =
     (case ph of
        ValCounted p a b c \<Rightarrow>
          if t' = t \<and> split_file dm = p \<and> num_train dm = a \<and> num_test dm = b \<and> num_val dm = c
          then (Idle, tested @ [p]) else (Violation, tested)
      | _ \<Rightarrow> (Violation, tested))"
| "order_step t (ph, tested) ev = (ph, tested)"

definition observe_order :: "pyobj \<Rightarrow> event list \<Rightarrow> phase \<times> string list" where
  "observe_order t evs = foldl (order_step t) (Idle, []) evs"




section \<open>Notions for the proofs\<close>

text \<open>
  The configuration that the resume branch hands on: the last checkpoint is adopted when
  no checkpoint path was given and the file exists.
\<close>

definition resumed :: "config \<Rightarrow> filesystem \<Rightarrow> config" where
  "resumed conf files =
     (if run_ckpt_path conf = None \<and> path_exists files ''checkpoints/last.ckpt''
      then conf\<lparr>run_ckpt_path := Some ''checkpoints/last.ckpt''\<rparr> else conf)"

text \<open>
  The events of one evaluation pass: up to the load of the partition file, and up to the
  test call.
\<close>

definition pass_loaded :: "string \<Rightarrow> event list" where
  "pass_loaded p = [Assign_split_file p, NpLoad p]"

definition pass_ready :: "pyobj \<Rightarrow> string \<Rightarrow> nat \<Rightarrow> nat \<Rightarrow> nat \<Rightarrow> string list \<Rightarrow> datamodule \<Rightarrow> event list" where
  "pass_ready t p a b c before dm =
     [Assign_split_file p, NpLoad p, Assign_num_train a, Assign_num_test b, Assign_num_val c]
     @ map LogInfo before
     @ [TrainerTest t (dm\<lparr>split_file := p, num_train := a, num_test := b, num_val := c\<rparr>)]"

text \<open>
  \<open>observes step good m s s'\<close>: whatever the world, the events that \<open>m\<close> adds take
  the observer from \<open>s\<close> to a good state, and to \<open>s'\<close> when \<open>m\<close> returns. \<open>quiet step m\<close>:
  \<open>m\<close> adds only events that the observer passes over.
\<close>

definition observes :: "('s \<Rightarrow> event \<Rightarrow> 's) \<Rightarrow> ('s \<Rightarrow> bool) \<Rightarrow> 'a prog \<Rightarrow> 's \<Rightarrow> 's \<Rightarrow> bool" where
  "observes step good m s s' \<longleftrightarrow>
     (\<forall>w. \<exists>evs. trace (snd (m w)) = trace w @ evs \<and> good (foldl step s evs)
        \<and> (\<forall>x. fst (m w) = Return x \<longrightarrow> foldl step s evs = s'))"


text \<open>The good states of the two observers.\<close>

definition order_ok :: "phase \<times> string list \<Rightarrow> bool" where
  "order_ok s \<longleftrightarrow> fst s \<noteq> Violation \<and> prefix (snd s) split_files"


text \<open>
  A partition file holds the three index arrays. \<open>succeeds P m\<close>: from a world whose
  files satisfy \<open>P\<close>, \<open>m\<close> returns and leaves the files as they were. \<open>has_inputs\<close>:
  the model file and the seven partition files are in place.
\<close>

definition partition_file :: "filesystem \<Rightarrow> string \<Rightarrow> bool" where
  "partition_file files p =
     (case map_of files p of
        Some (File (Npz arrays)) \<Rightarrow>
          map_of arrays ''train_idx'' \<noteq> None \<and> map_of arrays ''test_idx'' \<noteq> None
          \<and> map_of arrays ''val_idx'' \<noteq> None
      | _ \<Rightarrow> False)"

definition succeeds :: "(filesystem \<Rightarrow> bool) \<Rightarrow> 'a prog \<Rightarrow> bool" where
  "succeeds P m \<longleftrightarrow>
     (\<forall>w. P (fs w) \<longrightarrow> (\<exists>x. fst (m w) = Return x) \<and> fs (snd (m w)) = fs w)"

definition has_inputs :: "filesystem \<Rightarrow> bool" where
  "has_inputs files \<longleftrightarrow>
     (\<exists>m. map_of files pretrained_model_file = Some (File (Pickle m)))
     \<and> list_all (partition_file files) split_files"

section \<open>An example directory\<close>

text \<open>
  A run directory for the concrete instances: a configuration of an earlier run with an
  archived copy numbered 2, a last checkpoint and a best checkpoint; the model file and
  the seven partition files at their fixed paths. In \<open>dir_world\<close> the model path of the
  configuration is taken by a directory. In \<open>example_env\<close> no external call raises.
\<close>

definition example_config :: config where
  "example_config =
     \<lparr>run_data_dir = Value ''data'', run_ckpt_path = None, run_id = ''run1'',
      data = Some \<lparr>data_target = ''QM9'', train_sampler_cls = None\<rparr>,
      model = Some ''NeuralNetworkPotential'',
      task = \<lparr>task_target = ''AtomisticTask'', optimizer_cls = ''torch.optim.AdamW'',
              scheduler_cls = None\<rparr>,
      callbacks = Some [(''model_checkpoint'', Some ''ModelCheckpoint''), (''note'', None)],
      logger = None, trainer = ''Trainer'', print_config = False, matmul_precision = None,
      seed = Some 42, globals_model_path = ''best_model''\<rparr>"

definition previous_config :: config where
  "previous_config = example_config\<lparr>run_id := ''run0''\<rparr>"

definition example_split :: "(string \<times> nat list) list" where
  "example_split = [(''train_idx'', [0, 1, 2]), (''val_idx'', [3]), (''test_idx'', [4, 5])]"

definition run_files :: filesystem where
  "run_files =
     [(''config.yaml'', File (Yaml previous_config)),
      (''config.old.2.yaml'', File (Yaml previous_config)),
      (''checkpoints/last.ckpt'', File (Checkpoint (Opaque ''last task''))),
      (''best.ckpt'', File (Checkpoint (Opaque ''best task'')))]"

definition data_files :: filesystem where
  "data_files =
     (pretrained_model_file, File (Pickle (Opaque ''model'')))
     # map (\<lambda>p. (p, File (Npz example_split))) split_files"

definition example_world :: world where
  "example_world = \<lparr>fs = run_files @ data_files, trace = []\<rparr>"

definition example_env :: env where
  "example_env =
     \<lparr>is_missing = (\<lambda>conf key. key = ''run.data_dir'' \<and> run_data_dir conf = Missing),
      ext_raises = (\<lambda>h ev. None),
      instantiated_datamodule = \<lparr>split_file = ''split.npz'', num_train = 0, num_test = 0, num_val = 0\<rparr>,
      best_model_path = Some ''best.ckpt''\<rparr>"


section \<open>Properties of the exclusion transform\<close>

lemma not_excluded_zero: "\<not> excluded xs 0"
  by (induction xs) (auto simp: excluded_def)

lemma excluded_Cons: "excluded (e # xs) y \<longleftrightarrow> (truthy e \<and> e = PyInt y) \<or> excluded xs y"
  by (simp add: excluded_def)

lemma masked_assign_eq:
  "masked_assign t (map (\<lambda>y. y = n) t) 0 = map (\<lambda>y. if y = n then 0 else y) t"
  by (induction t) (simp_all add: masked_assign_def)

lemma exclude_one:
  "truthy e \<Longrightarrow> e = PyInt n \<Longrightarrow> map (\<lambda>y. if y = n then 0 else y) t = exclude [e] t"
  by (simp add: exclude_def excluded_def)

lemma exclude_falsy: "\<not> truthy e \<Longrightarrow> exclude [e] t = t"
  by (simp add: exclude_def excluded_def map_idI)

lemma exclude_absent:
  "\<not> list_ex (\<lambda>y. y = n) t \<Longrightarrow> exclude [PyInt n] t = t"
  by (auto simp: exclude_def excluded_def list_ex_iff intro: map_idI)

lemma exclude_Cons: "exclude rest (exclude [e] t) = exclude (e # rest) t"
  by (auto simp: exclude_def excluded_Cons not_excluded_zero excluded_def)

lemma forward_step_present:
  assumes "dicts h inputs Z = Some t"
  shows "forward_step Z e inputs h =
           Inr (h\<lparr>tensors := (tensors h)(t := exclude [e] (tensors h t))\<rparr>)"
proof (cases e)
  case PyNone
  then show ?thesis by (simp add: forward_step_def exclude_falsy)
next
  case (PyInt n)
  show ?thesis
  proof (cases "n = 0")
    case True
    with PyInt show ?thesis by (simp add: forward_step_def exclude_falsy)
  next
    case False
    show ?thesis
    proof (cases "list_ex (\<lambda>y. y = n) (tensors h t)")
      case True
      with PyInt False assms show ?thesis
        by (simp add: forward_step_def dict_getitem_def tensor_setitem_def masked_assign_eq
            exclude_one [of e n])
    next
      case hit: False
      with PyInt False assms show ?thesis
        by (simp add: forward_step_def dict_getitem_def exclude_absent)
    qed
  qed
qed

lemma forward_loop_present:
  "dicts h inputs Z = Some t \<Longrightarrow>
   forward_loop Z xs inputs h = Inr (h\<lparr>tensors := (tensors h)(t := exclude xs (tensors h t))\<rparr>)"
proof (induction xs arbitrary: h)
  case Nil
  then show ?case by (simp add: exclude_def excluded_def)
next
  case (Cons e xs)
  let ?h = "h\<lparr>tensors := (tensors h)(t := exclude [e] (tensors h t))\<rparr>"
  from Cons.prems have step: "forward_step Z e inputs h = Inr ?h"
    by (rule forward_step_present)
  from Cons.prems have "dicts ?h inputs Z = Some t" by simp
  then have "forward_loop Z xs inputs ?h =
      Inr (?h\<lparr>tensors := (tensors ?h)(t := exclude xs (tensors ?h t))\<rparr>)"
    by (rule Cons.IH)
  moreover have "?h\<lparr>tensors := (tensors ?h)(t := exclude xs (tensors ?h t))\<rparr> =
      h\<lparr>tensors := (tensors h)(t := exclude (e # xs) (tensors h t))\<rparr>"
    by (simp add: exclude_Cons)
  ultimately have "forward_loop Z xs inputs ?h =
      Inr (h\<lparr>tensors := (tensors h)(t := exclude (e # xs) (tensors h t))\<rparr>)"
    by (simp only:)
  with step show ?case by (simp only: forward_loop.simps sum.case)
qed

lemma forward_step_absent:
  "dicts h inputs Z = None \<Longrightarrow>
   forward_step Z e inputs h = (if truthy e then Inl KeyError else Inr h)"
  by (simp add: forward_step_def dict_getitem_def)

lemma forward_loop_absent:
  "dicts h inputs Z = None \<Longrightarrow>
   forward_loop Z xs inputs h = (if list_ex truthy xs then Inl KeyError else Inr h)"
  by (induction xs) (simp_all add: forward_step_absent)

lemma exclude_idem: "exclude xs (exclude xs t) = exclude xs t"
  by (auto simp: exclude_def not_excluded_zero)

lemma forward_step_falsy: "\<not> truthy e \<Longrightarrow> forward_step Z e inputs h = Inr h"
  by (simp add: forward_step_def)

lemma forward_loop_filter:
  "forward_loop Z (filter truthy xs) inputs h = forward_loop Z xs inputs h"
  by (induction xs arbitrary: h) (simp_all add: forward_step_falsy split: sum.splits)

lemma forward_loop_all_falsy:
  "\<forall>e\<in>set xs. \<not> truthy e \<Longrightarrow> forward_loop Z xs inputs h = Inr h"
  by (induction xs) (simp_all add: forward_step_falsy)




text \<open>
  Claim C5. Falsy entries (\<open>0\<close>, \<open>None\<close>) are skipped: the result, error or not, is
  that of the list with the falsy entries removed. A list of falsy entries only returns
  the mapping with the store unchanged, and does not raise even when the batch has no
  atomic-numbers entry.
\<close>

theorem forward_skips_falsy:
  "forward Z (ExclusionTransformer_init (Some xs)) inputs h =
     forward Z (ExclusionTransformer_init (Some (filter truthy xs))) inputs h
   \<and> ((\<forall>e\<in>set xs. \<not> truthy e) \<longrightarrow>
        forward Z (ExclusionTransformer_init (Some xs)) inputs h = Inr (inputs, h))"
proof (intro conjI impI)
  show "forward Z (ExclusionTransformer_init (Some xs)) inputs h =
      forward Z (ExclusionTransformer_init (Some (filter truthy xs))) inputs h"
    by (simp add: forward_def ExclusionTransformer_init_def forward_loop_filter)
next
  assume "\<forall>e\<in>set xs. \<not> truthy e"
  then have "forward_loop Z xs inputs h = Inr h" by (rule forward_loop_all_falsy)
  then show "forward Z (ExclusionTransformer_init (Some xs)) inputs h = Inr (inputs, h)"
    by (simp add: forward_def ExclusionTransformer_init_def)
qed

theorem forward_skips_falsy_witness:
  "\<not> truthy (PyInt 0) \<and> \<not> truthy PyNone
   \<and> forward ''_atomic_numbers'' (ExclusionTransformer_init (Some [PyInt 0, PyNone])) 0 example_heap =
       Inr (0, example_heap)
   \<and> tensors example_heap 1 = [7, 6, 7, 1]"
proof -
  have f: "\<forall>e\<in>set [PyInt 0, PyNone]. \<not> truthy e" by simp
  from forward_skips_falsy [of "''_atomic_numbers''" "[PyInt 0, PyNone]" 0 example_heap] f
  have "forward ''_atomic_numbers'' (ExclusionTransformer_init (Some [PyInt 0, PyNone])) 0
      example_heap = Inr (0, example_heap)"
    by blast
  moreover have "tensors example_heap 1 = [7, 6, 7, 1]"
    by (simp add: example_heap_def)
  ultimately show ?thesis by simp
qed

text \<open>
  Claim C9. A transformer built with the default argument (\<open>excluded_atoms = None\<close>)
  raises \<open>TypeError\<close> on every batch, where a list of falsy entries returns the batch
  unchanged.
\<close>

theorem forward_default_raises:
  "forward Z (ExclusionTransformer_init None) inputs h = Inl TypeError
   \<and> forward Z (ExclusionTransformer_init (Some [PyInt 0, PyNone])) inputs h = Inr (inputs, h)"
proof
  have "excluded_atoms (ExclusionTransformer_init None) = None"
    by (simp add: ExclusionTransformer_init_def)
  then show "forward Z (ExclusionTransformer_init None) inputs h = Inl TypeError"
    by (simp add: forward_def)
next
  have "forward_loop Z [PyInt 0, PyNone] inputs h = Inr h"
    by (simp add: forward_step_falsy)
  then show "forward Z (ExclusionTransformer_init (Some [PyInt 0, PyNone])) inputs h = Inr (inputs, h)"
    by (simp add: forward_def ExclusionTransformer_init_def)
qed

theorem forward_default_raises_witness:
  "forward ''_atomic_numbers'' (ExclusionTransformer_init None) 0 example_heap = Inl TypeError"
  using forward_default_raises [of "''_atomic_numbers''" 0 example_heap] by simp

text \<open>
  Claim C10. \<open>forward\<close> is idempotent: when it returns, running it again on the
  returned mapping in the resulting store returns the same mapping and the same store.
\<close>

theorem forward_idempotent:
  assumes "forward Z self inputs h = Inr (r, h')"
  shows "forward Z self r h' = Inr (r, h')"
proof (cases "excluded_atoms self")
  case None
  with assms show ?thesis by (simp add: forward_def)
next
  case (Some xs)
  with assms have r: "r = inputs" and loop: "forward_loop Z xs inputs h = Inr h'"
    by (auto simp: forward_def split: sum.splits)
  have "forward_loop Z xs inputs h' = Inr h'"
  proof (cases "dicts h inputs Z")
    case None
    with loop have "h' = h"
      by (simp add: forward_loop_absent split: if_splits)
    with loop show ?thesis by simp
  next
    case (Some t)
    with loop have h': "h' = h\<lparr>tensors := (tensors h)(t := exclude xs (tensors h t))\<rparr>"
      by (simp add: forward_loop_present)
    with Some have "dicts h' inputs Z = Some t" by simp
    then have "forward_loop Z xs inputs h' =
        Inr (h'\<lparr>tensors := (tensors h')(t := exclude xs (tensors h' t))\<rparr>)"
      by (rule forward_loop_present)
    moreover have "h'\<lparr>tensors := (tensors h')(t := exclude xs (tensors h' t))\<rparr> = h'"
      by (simp add: h' exclude_idem)
    ultimately show ?thesis by (simp only:)
  qed
  with Some r show ?thesis by (simp add: forward_def)
qed

theorem forward_idempotent_witness:
  "forward ''_atomic_numbers'' (ExclusionTransformer_init (Some [PyInt 7, PyNone])) 0 example_heap =
     Inr (0, example_heap\<lparr>tensors := (tensors example_heap)(1 := [0, 6, 0, 1])\<rparr>)
   \<and> forward ''_atomic_numbers'' (ExclusionTransformer_init (Some [PyInt 7, PyNone])) 0
       (example_heap\<lparr>tensors := (tensors example_heap)(1 := [0, 6, 0, 1])\<rparr>) =
     Inr (0, example_heap\<lparr>tensors := (tensors example_heap)(1 := [0, 6, 0, 1])\<rparr>)"
proof -
  have z: "dicts example_heap 0 ''_atomic_numbers'' = Some 1"
    by (simp add: example_heap_def)
  have t: "tensors example_heap 1 = [7, 6, 7, 1]"
    by (simp add: example_heap_def)
  have e: "exclude [PyInt 7, PyNone] [7, 6, 7, 1] = [0, 6, 0, 1]"
    by (simp add: exclude_def excluded_def)
  have once: "forward ''_atomic_numbers'' (ExclusionTransformer_init (Some [PyInt 7, PyNone])) 0
      example_heap =
      Inr (0, example_heap\<lparr>tensors := (tensors example_heap)(1 := [0, 6, 0, 1])\<rparr>)"
    using t e forward_loop_present [OF z, of "[PyInt 7, PyNone]"]
    by (simp add: forward_def ExclusionTransformer_init_def del: forward_loop.simps)
  from forward_idempotent [OF once] once show ?thesis by simp
qed

section \<open>Properties of the training entry point\<close>

subsection \<open>Programs: the laws used below\<close>

lemma bind_return [simp]: "bind_prog (return_prog x) f = f x"
  by (rule ext) (simp add: bind_prog_def return_prog_def)

lemma bind_raise [simp]: "bind_prog (raise_prog e) f = raise_prog e"
  by (rule ext) (simp add: bind_prog_def raise_prog_def)

lemma bind_emit: "bind_prog (emit ev) f w = f () (w\<lparr>trace := trace w @ [ev]\<rparr>)"
  by (simp add: bind_prog_def emit_def)

lemma bind_Return: "m w = (Return x, w') \<Longrightarrow> bind_prog m f w = f x w'"
  by (simp add: bind_prog_def)

lemma bind_assoc: "bind_prog (bind_prog m f) g = bind_prog m (\<lambda>x. bind_prog (f x) g)"
  by (rule ext) (simp add: bind_prog_def split: prod.splits outcome.splits)

lemma bind_prog_returns: "fst (m w) = Return x \<Longrightarrow> bind_prog m f w = f x (snd (m w))"
  by (cases "m w") (simp add: bind_prog_def)

lemma bind_ext_call_ok:
  "ext_raises e (trace w) ev = None \<Longrightarrow>
   bind_prog (ext_call e ev) f w = f () (w\<lparr>trace := trace w @ [ev]\<rparr>)"
  by (simp add: bind_prog_def ext_call_def)

lemma ext_call_ok:
  "ext_raises e (trace w) ev = None \<Longrightarrow> ext_call e ev w = (Return (), w\<lparr>trace := trace w @ [ev]\<rparr>)"
  by (simp add: ext_call_def)

lemma bind_os_path_exists: "bind_prog (os_path_exists p) f w = f (path_exists (fs w) p) w"
  by (simp add: bind_prog_def os_path_exists_def)

lemma bind_read_file:
  "map_of (fs w) p = Some (File c) \<Longrightarrow> bind_prog (read_file p) f w = f c w"
  by (simp add: bind_prog_def read_file_def)



lemma bind_write_file:
  "map_of (fs w) p \<noteq> Some Dir \<Longrightarrow>
   bind_prog (write_file p c) f w = f () (w\<lparr>fs := AList.update p (File c) (fs w)\<rparr>)"
  by (simp add: bind_prog_def write_file_def split: option.splits node.splits)


lemma log_all_run: "log_all msgs w = (Return (), w\<lparr>trace := trace w @ map LogInfo msgs\<rparr>)"
proof (induction msgs arbitrary: w)
  case Nil
  show ?case by (simp add: return_prog_def)
next
  case (Cons msg msgs)
  show ?case by (simp add: bind_emit Cons.IH)
qed

subsection \<open>Archive names and the free index\<close>

lemma free_archive_count_spec:
  "count \<le> free_archive_count files count
   \<and> \<not> path_exists files (archive_name (free_archive_count files count))
   \<and> (\<forall>k. count \<le> k \<and> k < free_archive_count files count \<longrightarrow> path_exists files (archive_name k))"
proof (induction files count rule: free_archive_count.induct)
  case (1 files count)
  show ?case
  proof (cases "path_exists files (archive_name count)")
    case True
    then have eq: "free_archive_count files count = free_archive_count files (count + 1)"
      by (simp add: free_archive_count.simps [of files count])
    from True "1.IH" have IH: "count + 1 \<le> free_archive_count files (count + 1)
      \<and> \<not> path_exists files (archive_name (free_archive_count files (count + 1)))
      \<and> (\<forall>k. count + 1 \<le> k \<and> k < free_archive_count files (count + 1) \<longrightarrow>
            path_exists files (archive_name k))"
      by simp
    have "\<forall>k. count \<le> k \<and> k < free_archive_count files (count + 1) \<longrightarrow>
        path_exists files (archive_name k)"
    proof (intro allI impI)
      fix k assume k: "count \<le> k \<and> k < free_archive_count files (count + 1)"
      show "path_exists files (archive_name k)"
      proof (cases "k = count")
        case True
        with \<open>path_exists files (archive_name count)\<close> show ?thesis by simp
      next
        case False
        with k have "count + 1 \<le> k \<and> k < free_archive_count files (count + 1)" by simp
        with IH show ?thesis by blast
      qed
    qed
    with IH show ?thesis unfolding eq by simp
  next
    case False
    then show ?thesis by (auto simp: free_archive_count.simps [of files count])
  qed
qed

lemma archive_name_not_last: "archive_name n \<noteq> ''checkpoints/last.ckpt''"
  by (simp add: archive_name_def)

lemma archive_name_not_config: "archive_name n \<noteq> ''config.yaml''"
  by (simp add: archive_name_def)

lemma archive_name_not_slash: "\<exists>cs. archive_name n = CHR ''c'' # cs"
  by (simp add: archive_name_def)

lemma archive_name_1: "archive_name 1 = ''config.old.1.yaml''"
  by (simp add: archive_name_def str_nat.simps digit_char_def)

lemma path_exists_update:
  "path_exists (AList.update p v files) q \<longleftrightarrow> q = p \<or> path_exists files q"
  by (simp add: path_exists_def update_conv')

subsection \<open>What each stage does\<close>

lemma resume_or_save_resume:
  assumes yaml: "map_of (fs w) ''config.yaml'' = Some (File (Yaml old))"
  shows "resume_or_save conf w =
    (Return (resumed conf (fs w)),
     w\<lparr>fs := AList.update (archive_name (free_archive_count (fs w) 1)) (File (Yaml old)) (fs w),
       trace := trace w
          @ [LogInfo ''Config already exists in given directory. Attempting to continue training.'']
          @ (if run_ckpt_path (resumed conf (fs w)) \<noteq> None then [LogInfo ''Resuming from checkpoint'']
             else [])\<rparr>)"
proof -
  let ?n = "free_archive_count (fs w) 1"
  have free: "map_of (fs w) (archive_name ?n) = None"
    using free_archive_count_spec [of 1 "fs w"] by (simp add: path_exists_def)
  have ex: "path_exists (fs w) ''config.yaml''"
    using yaml by (simp add: path_exists_def)
  show ?thesis
    using yaml free ex
    by (simp add: resume_or_save_def bind_prog_def os_path_exists_def emit_def OmegaConf_load_def
        OmegaConf_save_def read_file_def write_file_def return_prog_def resumed_def
        path_exists_update archive_name_not_last [symmetric])
qed

text \<open>The first run in a directory: \<open>config.yaml\<close> does not exist and is written.\<close>

lemma resume_or_save_first:
  assumes "map_of (fs w) ''config.yaml'' = None"
  shows "resume_or_save conf w =
    (Return conf, w\<lparr>fs := AList.update ''config.yaml'' (File (Yaml conf)) (fs w)\<rparr>)"
  using assms
  by (simp add: resume_or_save_def bind_prog_def os_path_exists_def OmegaConf_save_def
      write_file_def return_prog_def path_exists_def)

lemma configure_returns:
  assumes quiet_env: "\<And>h ev. ext_raises e h ev = None"
    and dir: "run_data_dir conf = Value dir"
  shows "fst (configure e conf w) = Return ()
       \<and> fs (snd (configure e conf w)) =
           (if path_exists (fs w) dir then fs w else AList.update dir Dir (fs w))"
  by (simp add: configure_def config_run_data_dir_def dir bind_assoc bind_ext_call_ok ext_call_ok
      quiet_env bind_emit bind_os_path_exists os_makedirs_def return_prog_def
      split: option.splits)

lemma train_complete_config:
  assumes "\<not> is_missing e conf ''run.data_dir''" "model conf = Some model_conf"
    "data conf = Some data_conf"
  shows "train e conf w =
     train_run e conf
       (w\<lparr>trace := trace w @ [Print ''header'', LogInfo ''Running on host GULSUM!: '']\<rparr>)"
  using assms by (simp add: train_def bind_emit)

lemma evaluation_pass_cases:
  "\<exists>evs out. evaluation_pass e t p before after dm w = (out, w\<lparr>trace := trace w @ evs\<rparr>) \<and>
     ((evs = pass_loaded p \<and> (\<exists>err. out = Raise err))
      \<or> (\<exists>a. evs = pass_loaded p @ [Assign_num_train a] \<and> (\<exists>err. out = Raise err))
      \<or> (\<exists>a b. evs = pass_loaded p @ [Assign_num_train a, Assign_num_test b]
            \<and> (\<exists>err. out = Raise err))
      \<or> (\<exists>a b c. evs = pass_ready t p a b c before dm \<and> (\<exists>err. out = Raise err))
      \<or> (\<exists>a b c. evs = pass_ready t p a b c before dm @ [LogInfo after]
            \<and> out = Return (dm\<lparr>split_file := p, num_train := a, num_test := b, num_val := c\<rparr>)))"
  by (auto simp: evaluation_pass_def assign_split_file_def assign_num_train_def
      assign_num_test_def assign_num_val_def np_load_def npz_getitem_def read_file_def
      bind_emit bind_prog_def return_prog_def raise_prog_def emit_def ext_call_def log_all_run
      pass_loaded_def pass_ready_def
      split: option.splits node.splits content.splits)



lemma store_writes_both:
  assumes path: "best_model_path e = Some p"
    and ckpt: "map_of (fs w) p = Some (File (Checkpoint t))"
    and task_free: "map_of (fs w) (globals_model_path conf @ ''.task'') \<noteq> Some Dir"
    and model_free: "map_of (fs w) (globals_model_path conf) \<noteq> Some Dir"
  shows "fst (store_best_model e conf w) = Return ()
       \<and> fs (snd (store_best_model e conf w)) =
           AList.update (globals_model_path conf) (File (Pickle (ModelOf t)))
             (AList.update (globals_model_path conf @ ''.task'') (File (Pickle t)) (fs w))"
  using assms
  by (simp add: store_best_model_def load_from_checkpoint_def torch_save_def save_model_def
      bind_assoc bind_emit bind_read_file bind_write_file emit_def update_conv')


subsection \<open>Observing a run\<close>

text \<open>
  The rules by which a property of the observed events is carried through the steps of
  a program: sequencing, and the steps that the observer passes over.
\<close>

lemma observes_bind:
  assumes m: "observes step good m s s1"
    and f: "\<And>x. observes step good (f x) s1 s2"
  shows "observes step good (bind_prog m f) s s2"
  unfolding observes_def
proof (intro allI)
  fix w
  from m obtain e1 where e1: "trace (snd (m w)) = trace w @ e1" "good (foldl step s e1)"
    and r1: "\<And>x. fst (m w) = Return x \<Longrightarrow> foldl step s e1 = s1"
    unfolding observes_def by blast
  obtain out w1 where mw: "m w = (out, w1)" by (cases "m w")
  show "\<exists>evs. trace (snd (bind_prog m f w)) = trace w @ evs \<and> good (foldl step s evs)
      \<and> (\<forall>x. fst (bind_prog m f w) = Return x \<longrightarrow> foldl step s evs = s2)"
  proof (cases out)
    case (Raise err)
    with mw have "bind_prog m f w = (Raise err, w1)" by (simp add: bind_prog_def)
    with e1 mw show ?thesis by auto
  next
    case (Return x)
    with mw have b: "bind_prog m f w = f x w1" by (simp add: bind_prog_def)
    from Return mw r1 have s1: "foldl step s e1 = s1" by simp
    from f [of x] obtain e2 where e2: "trace (snd (f x w1)) = trace w1 @ e2"
      "good (foldl step s1 e2)"
      and r2: "\<And>y. fst (f x w1) = Return y \<Longrightarrow> foldl step s1 e2 = s2"
      unfolding observes_def by blast
    from e1 e2 mw have "trace (snd (bind_prog m f w)) = trace w @ (e1 @ e2)"
      by (simp add: b)
    moreover from s1 e2 have "good (foldl step s (e1 @ e2))" by simp
    moreover from s1 r2 have "\<forall>y. fst (bind_prog m f w) = Return y \<longrightarrow> foldl step s (e1 @ e2) = s2"
      by (simp add: b)
    ultimately show ?thesis by blast
  qed
qed



























subsection \<open>The order of the evaluation passes\<close>

lemma order_step_log: "order_step t s (LogInfo msg) = s"
  by (cases s) simp

lemma order_logs: "foldl (order_step t) s (map LogInfo msgs) = s"
  by (induction msgs) (simp_all add: order_step_log)

lemma pass_order:
  assumes "prefix (ts @ [p]) split_files"
  shows "observes (order_step t) order_ok (evaluation_pass e t p before after dm)
           (Idle, ts) (Idle, ts @ [p])"
  unfolding observes_def
proof (intro allI)
  fix w
  from assms have ts: "prefix ts split_files" by (rule append_prefixD)
  from evaluation_pass_cases [of e t p before after dm w]
  obtain evs out where run: "evaluation_pass e t p before after dm w = (out, w\<lparr>trace := trace w @ evs\<rparr>)"
    and cases: "(evs = pass_loaded p \<and> (\<exists>err. out = Raise err))
      \<or> (\<exists>a. evs = pass_loaded p @ [Assign_num_train a] \<and> (\<exists>err. out = Raise err))
      \<or> (\<exists>a b. evs = pass_loaded p @ [Assign_num_train a, Assign_num_test b]
            \<and> (\<exists>err. out = Raise err))
      \<or> (\<exists>a b c. evs = pass_ready t p a b c before dm \<and> (\<exists>err. out = Raise err))
      \<or> (\<exists>a b c. evs = pass_ready t p a b c before dm @ [LogInfo after]
            \<and> out = Return (dm\<lparr>split_file := p, num_train := a, num_test := b, num_val := c\<rparr>))"
    by blast
  have ready: "foldl (order_step t) (Idle, ts) (pass_ready t p a b c before dm) = (Idle, ts @ [p])"
    for a b c
    by (simp add: pass_ready_def order_logs)
  from cases ts assms
  have "order_ok (foldl (order_step t) (Idle, ts) evs)
      \<and> (\<forall>x. out = Return x \<longrightarrow> foldl (order_step t) (Idle, ts) evs = (Idle, ts @ [p]))"
    by (auto simp: ready order_ok_def pass_loaded_def)
  with run show "\<exists>evs. trace (snd (evaluation_pass e t p before after dm w)) = trace w @ evs
      \<and> order_ok (foldl (order_step t) (Idle, ts) evs)
      \<and> (\<forall>x. fst (evaluation_pass e t p before after dm w) = Return x \<longrightarrow>
            foldl (order_step t) (Idle, ts) evs = (Idle, ts @ [p]))"
    by auto
qed

lemma sweep_order:
  "observes (order_step t) order_ok (evaluation_sweep e t dm) (Idle, []) (Idle, split_files)"
proof -
  have p: "prefix (take k split_files @ [split_files ! k]) split_files" if "k < 7" for k
    using that by (simp add: split_files_def take_Suc_conv_app_nth [symmetric] take_is_prefix)
  note step = pass_order [where ts = "take k split_files" and p = "split_files ! k" for k, OF p]
  have s0: "observes (order_step t) order_ok (evaluation_pass e t (split_path 100 100 100) b a d)
      (Idle, []) (Idle, take 1 split_files)" for b a d
    using step [of 0 t e b a d] by (simp add: split_files_def)
  have s1: "observes (order_step t) order_ok (evaluation_pass e t (split_path 100 80 100) b a d)
      (Idle, take 1 split_files) (Idle, take 2 split_files)" for b a d
    using step [of 1 t e b a d] by (simp add: split_files_def)
  have s2: "observes (order_step t) order_ok (evaluation_pass e t (split_path 100 60 100) b a d)
      (Idle, take 2 split_files) (Idle, take 3 split_files)" for b a d
    using step [of 2 t e b a d] by (simp add: split_files_def)
  have s3: "observes (order_step t) order_ok (evaluation_pass e t (split_path 100 40 100) b a d)
      (Idle, take 3 split_files) (Idle, take 4 split_files)" for b a d
    using step [of 3 t e b a d] by (simp add: split_files_def)
  have s4: "observes (order_step t) order_ok (evaluation_pass e t (split_path 100 20 100) b a d)
      (Idle, take 4 split_files) (Idle, take 5 split_files)" for b a d
    using step [of 4 t e b a d] by (simp add: split_files_def)
  have s5: "observes (order_step t) order_ok (evaluation_pass e t (split_path 100 0 100) b a d)
      (Idle, take 5 split_files) (Idle, take 6 split_files)" for b a d
    using step [of 5 t e b a d] by (simp add: split_files_def)
  have s6: "observes (order_step t) order_ok (evaluation_pass e t (split_path 100 100 0) b a d)
      (Idle, take 6 split_files) (Idle, split_files)" for b a d
    using step [of 6 t e b a d] by (simp add: split_files_def)
  show ?thesis
    unfolding evaluation_sweep_def
    by (intro observes_bind [OF s0] observes_bind [OF s1] observes_bind [OF s2]
        observes_bind [OF s3] observes_bind [OF s4] observes_bind [OF s5] s6)
qed

subsection \<open>Fitting and model loading\<close>











subsection \<open>Runs in which nothing raises\<close>

text \<open>
  With an environment in which no external call raises, and the model file and the seven
  partition files in place, a run gets as far as storing the best model.
\<close>

lemma succeeds_bind:
  assumes m: "succeeds P m" and f: "\<And>x. succeeds P (f x)"
  shows "succeeds P (bind_prog m f)"
  unfolding succeeds_def
proof (intro allI impI)
  fix w :: world assume P: "P (fs w)"
  with m obtain x where x: "fst (m w) = Return x" and keep: "fs (snd (m w)) = fs w"
    unfolding succeeds_def by blast
  from x have b: "bind_prog m f w = f x (snd (m w))" by (rule bind_prog_returns)
  from P keep have "P (fs (snd (m w)))" by simp
  with f [of x] have "(\<exists>y. fst (f x (snd (m w))) = Return y)
      \<and> fs (snd (f x (snd (m w)))) = fs (snd (m w))"
    unfolding succeeds_def by blast
  with b keep show "(\<exists>y. fst (bind_prog m f w) = Return y) \<and> fs (snd (bind_prog m f w)) = fs w"
    by simp
qed

lemma succeeds_return: "succeeds P (return_prog x)"
  by (simp add: succeeds_def return_prog_def)

lemma succeeds_emit: "succeeds P (emit ev)"
  by (simp add: succeeds_def emit_def)

lemma succeeds_ext_call: "(\<And>h. ext_raises e h ev = None) \<Longrightarrow> succeeds P (ext_call e ev)"
  by (simp add: succeeds_def ext_call_def)

lemma succeeds_if: "succeeds P a \<Longrightarrow> succeeds P b \<Longrightarrow> succeeds P (if c then a else b)"
  by simp

lemma succeeds_case_option:
  "succeeds P a \<Longrightarrow> (\<And>y. succeeds P (b y)) \<Longrightarrow>
   succeeds P (case x of None \<Rightarrow> a | Some y \<Rightarrow> b y)"
  by (cases x) simp_all

lemma succeeds_log_all: "succeeds P (log_all msgs)"
  by (simp add: succeeds_def log_all_run)

lemmas succeeds_intros = succeeds_bind succeeds_return succeeds_emit succeeds_ext_call
  succeeds_if succeeds_case_option succeeds_log_all

lemma succeeds_optional_class:
  assumes "\<And>h ev. ext_raises e h ev = None"
  shows "succeeds P (optional_class e name)"
  unfolding optional_class_def by (intro succeeds_intros assms)

lemma succeeds_instantiate_each:
  assumes "\<And>h ev. ext_raises e h ev = None"
  shows "succeeds P (instantiate_each e msg frag items)"
proof (induction items)
  case Nil
  show ?case by (simp add: succeeds_return)
next
  case (Cons item items)
  obtain name target where item: "item = (name, target)" by (cases item)
  show ?case
    unfolding item instantiate_each.simps
    by (intro succeeds_intros assms Cons.IH)
qed

lemma succeeds_torch_load:
  assumes "\<And>files. P files \<Longrightarrow> \<exists>m. map_of files p = Some (File (Pickle m))"
  shows "succeeds P (torch_load p)"
  unfolding succeeds_def
proof (intro allI impI)
  fix w :: world assume "P (fs w)"
  with assms obtain m where "map_of (fs w) p = Some (File (Pickle m))" by blast
  then show "(\<exists>x. fst (torch_load p w) = Return x) \<and> fs (snd (torch_load p w)) = fs w"
    by (simp add: torch_load_def bind_emit bind_read_file return_prog_def)
qed

lemma succeeds_instantiate_components:
  assumes quiet_env: "\<And>h ev. ext_raises e h ev = None"
    and model_file: "\<And>files. P files \<Longrightarrow> \<exists>m. map_of files pretrained_model_file = Some (File (Pickle m))"
    and sections: "data conf = Some data_conf" "model conf = Some model_conf"
  shows "succeeds P (instantiate_components e conf)"
  unfolding instantiate_components_def config_data_def config_model_def sections option.case
  by (intro succeeds_intros succeeds_optional_class succeeds_instantiate_each
      succeeds_torch_load quiet_env model_file)

lemma succeeds_evaluation_pass:
  assumes quiet_env: "\<And>h ev. ext_raises e h ev = None"
    and split: "\<And>files. P files \<Longrightarrow> partition_file files p"
  shows "succeeds P (evaluation_pass e t p before after dm)"
  unfolding succeeds_def
proof (intro allI impI)
  fix w :: world assume "P (fs w)"
  then have "partition_file (fs w) p" by (rule split)
  then obtain arrays tr te va where "map_of (fs w) p = Some (File (Npz arrays))"
    "map_of arrays ''train_idx'' = Some tr" "map_of arrays ''test_idx'' = Some te"
    "map_of arrays ''val_idx'' = Some va"
    by (auto simp: partition_file_def split: option.splits node.splits content.splits)
  then show "(\<exists>x. fst (evaluation_pass e t p before after dm w) = Return x)
      \<and> fs (snd (evaluation_pass e t p before after dm w)) = fs w"
    by (simp add: evaluation_pass_def assign_split_file_def assign_num_train_def
        assign_num_test_def assign_num_val_def np_load_def npz_getitem_def bind_assoc bind_emit
        bind_read_file bind_ext_call_ok quiet_env log_all_run bind_Return emit_def return_prog_def)
qed

lemma succeeds_evaluation_sweep:
  assumes quiet_env: "\<And>h ev. ext_raises e h ev = None"
    and splits: "\<And>files p. P files \<Longrightarrow> p \<in> set split_files \<Longrightarrow> partition_file files p"
  shows "succeeds P (evaluation_sweep e t dm)"
  unfolding evaluation_sweep_def
  by (intro succeeds_bind succeeds_evaluation_pass quiet_env splits) (simp_all add: split_files_def)

lemma split_path_slash: "\<exists>r. split_path a b c = CHR ''/'' # r"
  by (simp add: split_path_def split_files_dir_def)

lemma split_files_slash: "p \<in> set split_files \<Longrightarrow> \<exists>r. p = CHR ''/'' # r"
  using split_path_slash by (auto simp: split_files_def)

lemma pretrained_slash: "\<exists>r. pretrained_model_file = CHR ''/'' # r"
  by (simp add: pretrained_model_file_def)

lemma has_inputs_update:
  assumes "has_inputs files" and "c \<noteq> CHR ''/''"
  shows "has_inputs (AList.update (c # cs) v files)"
proof -
  from assms(2) pretrained_slash have "pretrained_model_file \<noteq> c # cs"
    by (metis list.inject)
  moreover have "p \<noteq> c # cs" if "p \<in> set split_files" for p
    using split_files_slash [OF that] assms(2) by (metis list.inject)
  ultimately show ?thesis
    using assms(1)
    by (auto simp: has_inputs_def list_all_iff partition_file_def update_conv')
qed

lemma train_run_reaches_store:
  assumes quiet_env: "\<And>h ev. ext_raises e h ev = None"
    and yaml: "map_of (fs w) ''config.yaml'' = Some (File (Yaml old))"
    and inputs: "has_inputs (fs w)"
    and sections: "run_data_dir conf = Value dir" "data conf = Some data_conf"
      "model conf = Some model_conf"
    and dir: "dir = d # ds" "d \<noteq> CHR ''/''" "\<not> path_exists (fs w) dir" "dir \<noteq> archive_name (free_archive_count (fs w) 1)"
  shows "\<exists>v. train_run e conf w = store_best_model e (resumed conf (fs w)) v
     \<and> fs v = AList.update dir Dir
         (AList.update (archive_name (free_archive_count (fs w) 1)) (File (Yaml old)) (fs w))"
proof -
  let ?fs1 = "AList.update (archive_name (free_archive_count (fs w) 1)) (File (Yaml old)) (fs w)"
  let ?fs2 = "AList.update dir Dir ?fs1"
  let ?conf = "resumed conf (fs w)"
  obtain cs where cs: "archive_name (free_archive_count (fs w) 1) = CHR ''c'' # cs"
    using archive_name_not_slash by blast
  from inputs have "has_inputs ?fs1" unfolding cs by (rule has_inputs_update) simp
  then have in2: "has_inputs ?fs2" unfolding dir(1) using dir(2) by (rule has_inputs_update)
  define P where "P = (\<lambda>files. files = ?fs2)"
  have P_model: "\<exists>m. map_of files pretrained_model_file = Some (File (Pickle m))" if "P files" for files
    using that in2 by (simp add: P_def has_inputs_def)
  have P_split: "partition_file files p" if "P files" "p \<in> set split_files" for files p
    using that in2 by (simp add: P_def has_inputs_def list_all_iff)
  obtain w1 where gate: "resume_or_save conf w = (Return ?conf, w1)" and fs1: "fs w1 = ?fs1"
    using resume_or_save_resume [OF yaml, of conf] by simp
  from sections have sections': "run_data_dir ?conf = Value dir" "data ?conf = Some data_conf"
    "model ?conf = Some model_conf"
    by (simp_all add: resumed_def)
  from dir(3,4) have "\<not> path_exists ?fs1 dir" by (simp add: path_exists_update)
  with configure_returns [OF quiet_env sections'(1), of w1] fs1
  have conf_ret: "fst (configure e ?conf w1) = Return ()"
    and fs2: "fs (snd (configure e ?conf w1)) = ?fs2"
    by simp_all
  let ?w2 = "snd (configure e ?conf w1)"
  from fs2 have P2: "P (fs ?w2)" by (simp add: P_def)
  have "succeeds P (instantiate_components e ?conf)"
    by (rule succeeds_instantiate_components [OF quiet_env P_model sections'(2,3)])
  with P2 obtain x where inst: "fst (instantiate_components e ?conf ?w2) = Return x"
    and fs3: "fs (snd (instantiate_components e ?conf ?w2)) = fs ?w2"
    unfolding succeeds_def by blast
  let ?w3 = "snd (instantiate_components e ?conf ?w2)"
  obtain dm t where x: "x = (dm, t)" by (cases x)
  from fs3 P2 have P3: "P (fs ?w3)" by simp
  have "succeeds P (evaluation_sweep e t dm)"
    by (rule succeeds_evaluation_sweep [OF quiet_env P_split])
  with P3 obtain dm' where sweep: "fst (evaluation_sweep e t dm ?w3) = Return dm'"
    and fs4: "fs (snd (evaluation_sweep e t dm ?w3)) = fs ?w3"
    unfolding succeeds_def by blast
  let ?w4 = "snd (evaluation_sweep e t dm ?w3)"
  have "train_run e conf w = store_best_model e ?conf ?w4"
    by (simp add: train_run_def bind_Return [where m = "resume_or_save conf", OF gate]
        bind_prog_returns [where m = "configure e ?conf", OF conf_ret]
        bind_prog_returns [where m = "instantiate_components e ?conf", OF inst] x
        bind_prog_returns [where m = "evaluation_sweep e t dm", OF sweep])
  moreover from fs4 fs3 fs2 have "fs ?w4 = ?fs2" by simp
  ultimately show ?thesis by blast
qed

subsection \<open>The example directory\<close>

lemma pretrained_not_split: "pretrained_model_file \<noteq> split_path a b c"
  by (simp add: pretrained_model_file_def split_path_def split_files_dir_def)

lemma map_of_same_value: "p \<in> set ps \<Longrightarrow> map_of (map (\<lambda>p. (p, v)) ps) p = Some v"
  by (induction ps) auto

lemma map_of_no_key: "p \<notin> set ps \<Longrightarrow> map_of (map (\<lambda>p. (p, v)) ps) p = None"
  by (induction ps) auto

lemma example_lookup_short:
  assumes "c \<noteq> CHR ''/''"
  shows "map_of (fs example_world) (c # cs) = map_of run_files (c # cs)"
proof -
  from assms split_files_slash have "c # cs \<notin> set split_files" by fastforce
  then have "map_of (map (\<lambda>p. (p, File (Npz example_split))) split_files) (c # cs) = None"
    by (rule map_of_no_key)
  moreover from assms have "c # cs \<noteq> pretrained_model_file"
    by (auto simp: pretrained_model_file_def)
  ultimately have "map_of data_files (c # cs) = None" by (simp add: data_files_def)
  then show ?thesis
    by (simp add: example_world_def map_add_def split: option.splits)
qed

lemma example_lookup_split:
  assumes "p \<in> set split_files"
  shows "map_of (fs example_world) p = Some (File (Npz example_split))"
proof -
  from assms obtain r where r: "p = CHR ''/'' # r" using split_files_slash by blast
  then have "map_of run_files p = None" by (simp add: run_files_def)
  moreover from assms have "p \<noteq> pretrained_model_file"
    using pretrained_not_split by (auto simp: split_files_def)
  moreover from assms
  have "map_of (map (\<lambda>p. (p, File (Npz example_split))) split_files) p = Some (File (Npz example_split))"
    by (rule map_of_same_value)
  ultimately show ?thesis by (simp add: example_world_def data_files_def map_add_def)
qed

lemma example_lookup_model:
  "map_of (fs example_world) pretrained_model_file = Some (File (Pickle (Opaque ''model'')))"
proof -
  have "map_of run_files pretrained_model_file = None"
    by (simp add: run_files_def pretrained_model_file_def)
  then show ?thesis by (simp add: example_world_def data_files_def map_add_def)
qed

lemma example_world_count: "free_archive_count (fs example_world) 1 = 1"
proof -
  have "\<not> path_exists (fs example_world) ''config.old.1.yaml''"
    by (simp add: path_exists_def example_lookup_short run_files_def)
  then have "\<not> path_exists (fs example_world) (archive_name 1)"
    unfolding archive_name_1 .
  then show ?thesis
    by (subst free_archive_count.simps) (simp only: if_False)
qed

lemma example_inputs: "has_inputs (fs example_world)"
proof -
  have "partition_file (fs example_world) p" if "p \<in> set split_files" for p
    using example_lookup_split [OF that] by (simp add: partition_file_def example_split_def)
  then show ?thesis
    using example_lookup_model by (simp add: has_inputs_def list_all_iff)
qed

lemma example_short_files:
  "map_of (fs example_world) ''config.yaml'' = Some (File (Yaml previous_config))"
  "map_of (fs example_world) ''config.old.1.yaml'' = None"
  "map_of (fs example_world) ''config.old.2.yaml'' = Some (File (Yaml previous_config))"
  "map_of (fs example_world) ''config.old.3.yaml'' = None"
  "map_of (fs example_world) ''checkpoints/last.ckpt'' = Some (File (Checkpoint (Opaque ''last task'')))"
  "map_of (fs example_world) ''best.ckpt'' = Some (File (Checkpoint (Opaque ''best task'')))"
  "map_of (fs example_world) ''data'' = None"
  "map_of (fs example_world) ''best_model'' = None"
  "map_of (fs example_world) ''best_model.task'' = None"
  by (simp_all add: example_lookup_short run_files_def)

lemma example_config_fields:
  "run_data_dir example_config = Value ''data''"
  "model example_config = Some ''NeuralNetworkPotential''"
  "data example_config = Some \<lparr>data_target = ''QM9'', train_sampler_cls = None\<rparr>"
  "run_ckpt_path example_config = None"
  "globals_model_path example_config = ''best_model''"
  by (simp_all add: example_config_def)

lemma example_env_quiet: "ext_raises example_env h ev = None"
  by (simp add: example_env_def)

lemma example_not_missing: "\<not> is_missing example_env example_config ''run.data_dir''"
  by (simp add: example_env_def example_config_def)

lemma example_reaches_store:
  "\<exists>v. train example_env example_config example_world =
       store_best_model example_env
         (example_config\<lparr>run_ckpt_path := Some ''checkpoints/last.ckpt''\<rparr>) v
     \<and> fs v = AList.update ''data'' Dir
         (AList.update ''config.old.1.yaml'' (File (Yaml previous_config)) (fs example_world))"
proof -
  let ?w = "example_world\<lparr>trace := trace example_world
      @ [Print ''header'', LogInfo ''Running on host GULSUM!: '']\<rparr>"
  have files: "fs ?w = fs example_world" by simp
  have a1: "archive_name (free_archive_count (fs example_world) 1) = ''config.old.1.yaml''"
    by (simp only: example_world_count archive_name_1)
  have res: "resumed example_config (fs example_world) =
      example_config\<lparr>run_ckpt_path := Some ''checkpoints/last.ckpt''\<rparr>"
    by (simp add: resumed_def example_config_fields path_exists_def example_short_files)
  have "\<exists>v. train_run example_env example_config ?w =
       store_best_model example_env (resumed example_config (fs ?w)) v
     \<and> fs v = AList.update ''data'' Dir
         (AList.update (archive_name (free_archive_count (fs ?w) 1)) (File (Yaml previous_config)) (fs ?w))"
  proof (rule train_run_reaches_store)
    show "ext_raises example_env h ev = None" for h ev by (rule example_env_quiet)
    show "map_of (fs ?w) ''config.yaml'' = Some (File (Yaml previous_config))"
      by (simp add: example_short_files)
    show "has_inputs (fs ?w)" by (simp add: example_inputs)
    show "run_data_dir example_config = Value ''data''"
      and "data example_config = Some \<lparr>data_target = ''QM9'', train_sampler_cls = None\<rparr>"
      and "model example_config = Some ''NeuralNetworkPotential''"
      by (rule example_config_fields)+
    show "''data'' = CHR ''d'' # ''ata''" by simp
    show "CHR ''d'' \<noteq> CHR ''/''" by simp
    show "\<not> path_exists (fs ?w) ''data''" by (simp add: path_exists_def example_short_files)
    show "''data'' \<noteq> archive_name (free_archive_count (fs ?w) 1)"
      unfolding files a1 by simp
  qed
  then show ?thesis
    unfolding files a1 res
    by (simp only: train_complete_config [OF example_not_missing example_config_fields(2,3)])
qed

lemma example_train:
  "fst (train example_env example_config example_world) = Return ()
   \<and> fs (snd (train example_env example_config example_world)) =
       AList.update ''best_model'' (File (Pickle (ModelOf (Opaque ''best task''))))
        (AList.update ''best_model.task'' (File (Pickle (Opaque ''best task'')))
          (AList.update ''data'' Dir
            (AList.update ''config.old.1.yaml'' (File (Yaml previous_config)) (fs example_world))))"
proof -
  from example_reaches_store obtain v
    where run: "train example_env example_config example_world =
        store_best_model example_env
          (example_config\<lparr>run_ckpt_path := Some ''checkpoints/last.ckpt''\<rparr>) v"
      and files: "fs v = AList.update ''data'' Dir
          (AList.update ''config.old.1.yaml'' (File (Yaml previous_config)) (fs example_world))"
    by blast
  have "fst (store_best_model example_env
          (example_config\<lparr>run_ckpt_path := Some ''checkpoints/last.ckpt''\<rparr>) v) = Return ()
      \<and> fs (snd (store_best_model example_env
          (example_config\<lparr>run_ckpt_path := Some ''checkpoints/last.ckpt''\<rparr>) v)) =
        AList.update (globals_model_path (example_config\<lparr>run_ckpt_path := Some ''checkpoints/last.ckpt''\<rparr>))
          (File (Pickle (ModelOf (Opaque ''best task''))))
          (AList.update (globals_model_path (example_config\<lparr>run_ckpt_path := Some ''checkpoints/last.ckpt''\<rparr>) @ ''.task'')
            (File (Pickle (Opaque ''best task''))) (fs v))"
  proof (rule store_writes_both)
    show "best_model_path example_env = Some ''best.ckpt''" by (simp add: example_env_def)
    show "map_of (fs v) ''best.ckpt'' = Some (File (Checkpoint (Opaque ''best task'')))"
      by (simp add: files update_conv' example_short_files)
    show "map_of (fs v) (globals_model_path (example_config\<lparr>run_ckpt_path := Some ''checkpoints/last.ckpt''\<rparr>) @ ''.task'') \<noteq> Some Dir"
      by (simp add: files update_conv' example_short_files example_config_fields)
    show "map_of (fs v) (globals_model_path (example_config\<lparr>run_ckpt_path := Some ''checkpoints/last.ckpt''\<rparr>)) \<noteq> Some Dir"
      by (simp add: files update_conv' example_short_files example_config_fields)
  qed
  then show ?thesis by (simp add: run files example_config_fields)
qed



subsection \<open>The configuration gate\<close>



subsection \<open>Resuming in a directory that has a configuration\<close>

text \<open>
  Claim C2, as the code has it. When \<open>config.yaml\<close> holds a configuration, the resume
  step writes one file, \<open>config.old.n.yaml\<close>, holding that previous configuration. Its
  index \<open>n\<close> is the least one from 1 on whose archive name is free: every smaller index
  is taken, and \<open>n\<close> is the highest existing index plus one exactly when the existing
  indices are \<open>1, \<dots>, m\<close> without a gap. Every other path, \<open>config.yaml\<close> among
  them, holds what it held before: the new configuration is not written in this branch.
\<close>

theorem resume_archives_previous_config:
  assumes yaml: "map_of (fs w) ''config.yaml'' = Some (File (Yaml old))"
    and n: "n = free_archive_count (fs w) 1"
  shows "(\<exists>conf'. fst (resume_or_save conf w) = Return conf')
     \<and> 1 \<le> n
     \<and> \<not> path_exists (fs w) (archive_name n)
     \<and> (\<forall>k. 1 \<le> k \<and> k < n \<longrightarrow> path_exists (fs w) (archive_name k))
     \<and> (\<forall>m. (\<forall>k. path_exists (fs w) (archive_name k) \<longleftrightarrow> 1 \<le> k \<and> k \<le> m) \<longrightarrow> n = m + 1)
     \<and> map_of (fs (snd (resume_or_save conf w))) (archive_name n) = Some (File (Yaml old))
     \<and> (\<forall>p. p \<noteq> archive_name n \<longrightarrow>
           map_of (fs (snd (resume_or_save conf w))) p = map_of (fs w) p)
     \<and> map_of (fs (snd (resume_or_save conf w))) ''config.yaml'' = Some (File (Yaml old))"
proof -
  from free_archive_count_spec [of 1 "fs w"] n
  have ge: "1 \<le> n" and free: "\<not> path_exists (fs w) (archive_name n)"
    and below: "\<forall>k. 1 \<le> k \<and> k < n \<longrightarrow> path_exists (fs w) (archive_name k)"
    by simp_all
  have next_index: "n = m + 1" if m: "\<forall>k. path_exists (fs w) (archive_name k) \<longleftrightarrow> 1 \<le> k \<and> k \<le> m" for m
  proof (rule antisym)
    show "n \<le> m + 1"
    proof (rule ccontr)
      assume "\<not> n \<le> m + 1"
      with below have "path_exists (fs w) (archive_name (m + 1))" by simp
      with m show False by simp
    qed
    from free m ge show "m + 1 \<le> n" by (simp add: not_le)
  qed
  from resume_or_save_resume [OF yaml, of conf] n
  have run: "fst (resume_or_save conf w) = Return (resumed conf (fs w))"
    and files: "fs (snd (resume_or_save conf w)) = AList.update (archive_name n) (File (Yaml old)) (fs w)"
    by simp_all
  from files have new: "map_of (fs (snd (resume_or_save conf w))) (archive_name n) = Some (File (Yaml old))"
    and rest: "\<forall>p. p \<noteq> archive_name n \<longrightarrow>
        map_of (fs (snd (resume_or_save conf w))) p = map_of (fs w) p"
    by (simp_all add: update_conv')
  from rest yaml have "map_of (fs (snd (resume_or_save conf w))) ''config.yaml'' = Some (File (Yaml old))"
    by (simp add: archive_name_not_config [symmetric])
  with run ge free below next_index new rest show ?thesis by blast
qed

theorem resume_archives_previous_config_witness:
  "map_of (fs example_world) ''config.yaml'' = Some (File (Yaml previous_config))
   \<and> free_archive_count (fs example_world) 1 = 1
   \<and> archive_name 1 = ''config.old.1.yaml''
   \<and> map_of (fs (snd (resume_or_save example_config example_world))) ''config.old.1.yaml'' =
       Some (File (Yaml previous_config))
   \<and> map_of (fs (snd (resume_or_save example_config example_world))) ''config.yaml'' =
       Some (File (Yaml previous_config))"
proof -
  have yaml: "map_of (fs example_world) ''config.yaml'' = Some (File (Yaml previous_config))"
    by (simp add: example_lookup_short run_files_def)
  from resume_archives_previous_config [OF yaml example_world_count [symmetric], of example_config]
  have "map_of (fs (snd (resume_or_save example_config example_world))) (archive_name 1) =
      Some (File (Yaml previous_config))"
    and kept: "map_of (fs (snd (resume_or_save example_config example_world))) ''config.yaml'' =
      Some (File (Yaml previous_config))"
    by blast+
  then have "map_of (fs (snd (resume_or_save example_config example_world))) ''config.old.1.yaml'' =
      Some (File (Yaml previous_config))"
    by (simp only: archive_name_1)
  with yaml kept example_world_count archive_name_1 show ?thesis by (simp only: simp_thms)
qed

text \<open>
  Claim C2 as stated fails on a complete run of \<open>train\<close>: the directory holds
  \<open>config.yaml\<close> and \<open>config.old.2.yaml\<close> (highest index 2, index 1 free), the run
  returns, and afterwards there is no \<open>config.old.3.yaml\<close>; the new archive is
  \<open>config.old.1.yaml\<close>, and \<open>config.yaml\<close> still holds the previous configuration,
  which differs from the new one.
\<close>

theorem train_resume_counterexample:
  "path_exists (fs example_world) ''config.yaml''
   \<and> \<not> path_exists (fs example_world) ''config.old.1.yaml''
   \<and> path_exists (fs example_world) ''config.old.2.yaml''
   \<and> \<not> path_exists (fs example_world) ''config.old.3.yaml''
   \<and> fst (train example_env example_config example_world) = Return ()
   \<and> \<not> path_exists (fs (snd (train example_env example_config example_world))) ''config.old.3.yaml''
   \<and> map_of (fs (snd (train example_env example_config example_world))) ''config.old.1.yaml'' =
       Some (File (Yaml previous_config))
   \<and> map_of (fs (snd (train example_env example_config example_world))) ''config.yaml'' =
       Some (File (Yaml previous_config))
   \<and> previous_config \<noteq> example_config"
proof -
  have "run_id previous_config \<noteq> run_id example_config"
    by (simp add: previous_config_def example_config_def)
  then have "previous_config \<noteq> example_config" by auto
  then show ?thesis
    using example_train
    by (simp add: path_exists_def update_conv' example_short_files)
qed

text \<open>
  Claim C6. When \<open>config.yaml\<close> holds a configuration: with no checkpoint path given,
  the path becomes \<open>checkpoints/last.ckpt\<close> if that file exists and stays unset if it
  does not; a path that was given is returned unchanged.
\<close>

theorem resume_checkpoint_path:
  assumes yaml: "map_of (fs w) ''config.yaml'' = Some (File (Yaml old))"
  shows "(run_ckpt_path conf = None \<and> path_exists (fs w) ''checkpoints/last.ckpt'' \<longrightarrow>
            fst (resume_or_save conf w) = Return (conf\<lparr>run_ckpt_path := Some ''checkpoints/last.ckpt''\<rparr>))
       \<and> (run_ckpt_path conf = None \<and> \<not> path_exists (fs w) ''checkpoints/last.ckpt'' \<longrightarrow>
            fst (resume_or_save conf w) = Return conf)
       \<and> (run_ckpt_path conf \<noteq> None \<longrightarrow> fst (resume_or_save conf w) = Return conf)"
proof -
  from resume_or_save_resume [OF yaml, of conf]
  have "fst (resume_or_save conf w) = Return (resumed conf (fs w))" by simp
  then show ?thesis by (simp add: resumed_def)
qed

theorem resume_checkpoint_path_witness:
  "map_of (fs example_world) ''config.yaml'' = Some (File (Yaml previous_config))
   \<and> run_ckpt_path example_config = None
   \<and> path_exists (fs example_world) ''checkpoints/last.ckpt''
   \<and> fst (resume_or_save example_config example_world) =
       Return (example_config\<lparr>run_ckpt_path := Some ''checkpoints/last.ckpt''\<rparr>)
   \<and> fst (resume_or_save (example_config\<lparr>run_ckpt_path := Some ''epoch3.ckpt''\<rparr>) example_world) =
       Return (example_config\<lparr>run_ckpt_path := Some ''epoch3.ckpt''\<rparr>)"
proof -
  have yaml: "map_of (fs example_world) ''config.yaml'' = Some (File (Yaml previous_config))"
    by (simp add: example_lookup_short run_files_def)
  have none: "run_ckpt_path example_config = None" by (simp add: example_config_def)
  have last: "path_exists (fs example_world) ''checkpoints/last.ckpt''"
    by (simp add: path_exists_def example_lookup_short run_files_def)
  from resume_checkpoint_path [OF yaml, of example_config]
    resume_checkpoint_path [OF yaml, of "example_config\<lparr>run_ckpt_path := Some ''epoch3.ckpt''\<rparr>"]
    yaml none last
  show ?thesis by simp
qed

subsection \<open>No fitting pass\<close>




subsection \<open>The evaluation passes in order\<close>

text \<open>
  Claim C7. On every run of the evaluation passes, whether it returns or raises, the
  observer of the order never sees a violation: each test call is for the one task, comes
  after the split file of its pass was assigned, loaded, and the counts for train, test
  and validation were assigned in that order, and is given a data module with just these
  values; no assignment falls between a pass's counts and its test call. The split files
  tested are a prefix of the fixed sequence, and all seven, in order, when the run returns.
\<close>

theorem evaluation_sweep_ordered:
  "\<exists>evs. trace (snd (evaluation_sweep e t dm w)) = trace w @ evs
     \<and> fst (observe_order t evs) \<noteq> Violation
     \<and> prefix (snd (observe_order t evs)) split_files
     \<and> ((\<exists>dm'. fst (evaluation_sweep e t dm w) = Return dm') \<longrightarrow>
          observe_order t evs = (Idle, split_files))"
proof -
  from sweep_order [of t e dm] obtain evs
    where tr: "trace (snd (evaluation_sweep e t dm w)) = trace w @ evs"
      and ok: "order_ok (foldl (order_step t) (Idle, []) evs)"
      and ret: "\<forall>x. fst (evaluation_sweep e t dm w) = Return x \<longrightarrow>
          foldl (order_step t) (Idle, []) evs = (Idle, split_files)"
    unfolding observes_def by blast
  from ok have "fst (observe_order t evs) \<noteq> Violation"
    and "prefix (snd (observe_order t evs)) split_files"
    by (simp_all add: order_ok_def observe_order_def)
  moreover from ret have "(\<exists>dm'. fst (evaluation_sweep e t dm w) = Return dm') \<longrightarrow>
      observe_order t evs = (Idle, split_files)"
    by (auto simp: observe_order_def)
  ultimately show ?thesis using tr by blast
qed

theorem evaluation_sweep_ordered_witness:
  "(\<exists>dm'. fst (evaluation_sweep example_env (TaskWith (Opaque ''model''))
         (instantiated_datamodule example_env) example_world) = Return dm')
   \<and> observe_order (TaskWith (Opaque ''model''))
        (trace (snd (evaluation_sweep example_env (TaskWith (Opaque ''model''))
           (instantiated_datamodule example_env) example_world))) = (Idle, split_files)"
proof -
  let ?run = "evaluation_sweep example_env (TaskWith (Opaque ''model''))
    (instantiated_datamodule example_env) example_world"
  have start: "trace example_world = []" by (simp add: example_world_def)
  have "succeeds (\<lambda>files. files = fs example_world)
      (evaluation_sweep example_env (TaskWith (Opaque ''model'')) (instantiated_datamodule example_env))"
  proof (rule succeeds_evaluation_sweep)
    show "ext_raises example_env h ev = None" for h ev by (rule example_env_quiet)
    show "partition_file files p" if "files = fs example_world" "p \<in> set split_files" for files p
      using that example_inputs by (simp add: has_inputs_def list_all_iff)
  qed
  then obtain dm' where ret: "fst ?run = Return dm'"
    unfolding succeeds_def by blast
  from evaluation_sweep_ordered [of example_env "TaskWith (Opaque ''model'')"
      "instantiated_datamodule example_env" example_world] start ret
  have order: "observe_order (TaskWith (Opaque ''model'')) (trace (snd ?run)) = (Idle, split_files)"
    by auto
  with ret show ?thesis by blast
qed

subsection \<open>Storing the best model\<close>




end
